theory Spec2Isabelle
  imports Complex_Main
begin

section \<open>Data model\<close>

text \<open>
  The program is \<^verbatim>\<open>tr/src/model.py\<close>: the class \<^verbatim>\<open>mk_trdesign_model\<close> and the
  function \<^verbatim>\<open>_np_get_6D_binned\<close>. Arrays hold real numbers (the data model of the
  specification: "a 2D array of real values"); a matrix is a list of rows, a stack of
  per-pair bin vectors is a list of lists of rows. The four geometry channels are the
  keys \<^verbatim>\<open>"dist"\<close>, \<^verbatim>\<open>"omega"\<close>, \<^verbatim>\<open>"theta"\<close>, \<^verbatim>\<open>"phi"\<close> of the dictionaries the code
  passes around; a dictionary with exactly these keys is a function on \<open>channel\<close>.
  Python exceptions are values of \<open>error\<close>.
\<close>

datatype channel = Dist | Omega | Theta | Phi

datatype error = IndexError | ValueError | TypeError | KeyError

type_synonym matrix = "real list list"

type_synonym tensor3 = "real list list list"

definition channels :: "channel list" where
  "channels = [Dist, Omega, Theta, Phi]"

definition square :: "nat \<Rightarrow> 'a list list \<Rightarrow> bool" where
  "square L m = (length m = L \<and> list_all (\<lambda>r. length r = L) m)"

section \<open>GeometryBinner: \<^verbatim>\<open>_np_get_6D_binned\<close> and \<^verbatim>\<open>mtx2bins\<close>\<close>

text \<open>
  \<^verbatim>\<open>np.linspace(start, end, nbins)\<close>: \<open>nbins\<close> evenly spaced thresholds, the first
  \<open>start\<close> and the last \<open>end\<close>.
\<close>

definition linspace :: "real \<Rightarrow> real \<Rightarrow> nat \<Rightarrow> real list" where
  "linspace start stop num =
     map (\<lambda>i. start + real i * ((stop - start) / real (num - 1))) [0..<num]"

text \<open>
  \<^verbatim>\<open>np.digitize(x, bins)\<close> for increasing \<open>bins\<close> (\<^verbatim>\<open>right=False\<close>): the index \<open>i\<close> with
  \<open>bins[i-1] \<le> x < bins[i]\<close>, that is the number of leading thresholds that are at most
  \<open>x\<close>; \<open>0\<close> below the first threshold and \<open>len(bins)\<close> from the last one on.
\<close>

definition digitize :: "real \<Rightarrow> real list \<Rightarrow> nat" where
  "digitize x bins = length (takeWhile (\<lambda>b. b \<le> x) bins)"

text \<open>Row \<open>k\<close> of \<^verbatim>\<open>np.eye(n)\<close>.\<close>

definition eye_row :: "nat \<Rightarrow> nat \<Rightarrow> real list" where
  "eye_row n k = map (\<lambda>c. if c = k then 1 else 0) [0..<n]"

text \<open>
  The bin index \<open>x_true\<close> of one pair inside \<^verbatim>\<open>mtx2bins\<close>: digitize, cast to
  \<^verbatim>\<open>np.uint8\<close> (which wraps modulo 256), then \<^verbatim>\<open>np.where(mask, 0, x_true)\<close>.
\<close>

definition x_true :: "real \<Rightarrow> real \<Rightarrow> nat \<Rightarrow> bool \<Rightarrow> real \<Rightarrow> nat" where
  "x_true start stop nbins m x =
     (let bins = linspace start stop nbins;
          d = digitize x bins mod 256
      in if m then 0 else d)"

text \<open>
  \<^verbatim>\<open>mtx2bins\<close>: per pair, row \<open>x_true\<close> of the identity of size \<open>nbins + 1\<close> with its last
  column dropped (\<^verbatim>\<open>np.eye(nbins+1)[x_true][...,:-1]\<close>).
\<close>

definition mtx2bins ::
  "matrix \<Rightarrow> real \<Rightarrow> real \<Rightarrow> nat \<Rightarrow> bool list list \<Rightarrow> tensor3" where
  "mtx2bins x_ref start stop nbins msk =
     map2 (\<lambda>xs ms. map2 (\<lambda>x m. butlast (eye_row (nbins + 1) (x_true start stop nbins m x))) xs ms)
       x_ref msk"

text \<open>
  The mask of \<^verbatim>\<open>_np_get_6D_binned\<close>:
  \<^verbatim>\<open>(ref["dist"] > 20) | (np.eye(ref["dist"].shape[0]) == 1)\<close>.
\<close>

definition pair_mask :: "matrix \<Rightarrow> bool list list" where
  "pair_mask d =
     map (\<lambda>i. map (\<lambda>j. 20 < d ! i ! j \<or> i = j) [0..<length d]) [0..<length d]"

text \<open>
  \<^verbatim>\<open>_np_get_6D_binned\<close>. The raw pairwise geometry comes from \<^verbatim>\<open>_np_get_6D\<close> of
  \<^verbatim>\<open>af/src/misc.py\<close>, which is not part of the sources at hand: it is the parameter
  \<open>get6D\<close>, returning one \<open>L \<times> L\<close> matrix per channel. \<^verbatim>\<open>jnp.squeeze\<close> leaves an
  \<open>L \<times> L\<close> matrix alone unless \<open>L = 1\<close>, where it yields a scalar and \<^verbatim>\<open>.shape[0]\<close>
  raises. Matrices that are not all \<open>L \<times> L\<close> do not broadcast against the mask.
\<close>

definition np_get_6D_binned ::
  "('p \<Rightarrow> 'm \<Rightarrow> channel \<Rightarrow> matrix) \<Rightarrow> 'p \<Rightarrow> 'm \<Rightarrow> error + (channel \<Rightarrow> tensor3)" where
  "np_get_6D_binned get6D all_atom_positions all_atom_mask =
     (let ref = get6D all_atom_positions all_atom_mask;
          L = length (ref Dist)
      in if L = 1 then Inl IndexError
         else if \<not> list_all (\<lambda>k. square L (ref k)) channels then Inl ValueError
         else
           let msk = pair_mask (ref Dist)
           in Inr (\<lambda>k. case k of
                  Dist \<Rightarrow> mtx2bins (ref Dist) 2 20 37 msk
                | Omega \<Rightarrow> mtx2bins (ref Omega) (- pi) pi 25 msk
                | Theta \<Rightarrow> mtx2bins (ref Theta) (- pi) pi 25 msk
                | Phi \<Rightarrow> mtx2bins (ref Phi) 0 pi 13 msk))"

text \<open>
  The arguments \<open>(start, end, nbins)\<close> that \<^verbatim>\<open>_np_get_6D_binned\<close> passes to
  \<^verbatim>\<open>mtx2bins\<close> for each channel, named for use in statements.
\<close>

fun lower_edge :: "channel \<Rightarrow> real" where
  "lower_edge Dist = 2"
| "lower_edge Omega = - pi"
| "lower_edge Theta = - pi"
| "lower_edge Phi = 0"

fun upper_edge :: "channel \<Rightarrow> real" where
  "upper_edge Dist = 20"
| "upper_edge Omega = pi"
| "upper_edge Theta = pi"
| "upper_edge Phi = pi"

fun nbins_of :: "channel \<Rightarrow> nat" where
  "nbins_of Dist = 37"
| "nbins_of Omega = 25"
| "nbins_of Theta = 25"
| "nbins_of Phi = 13"

text \<open>A concrete geometry of two residues whose mutual distance is exactly 20.\<close>

definition ref_edge :: "channel \<Rightarrow> matrix" where
  "ref_edge k = (case k of Dist \<Rightarrow> [[0, 20], [20, 0]] | _ \<Rightarrow> [[0, 0], [0, 0]])"

text \<open>A concrete geometry of three residues: distances 1.5, 25 and 30.\<close>

definition ref_three :: "channel \<Rightarrow> matrix" where
  "ref_three k = (case k of
       Dist \<Rightarrow> [[0, 3 / 2, 25], [3 / 2, 0, 30], [25, 30, 0]]
     | _ \<Rightarrow> [[0, 1, 1], [1, 0, 1], [1, 1, 0]])"

text \<open>
  Stand-ins for the missing \<^verbatim>\<open>_np_get_6D\<close>. The atom mask is a list of per-residue
  presence flags. \<open>get6D_three\<close> reports the geometry \<open>ref_three\<close> of three residues;
  \<open>get6D_ten\<close> reports two residues at distance 10, for use with a mask that marks the
  atoms of the second residue as missing.
\<close>

definition get6D_three :: "unit \<Rightarrow> bool list \<Rightarrow> channel \<Rightarrow> matrix" where
  "get6D_three P M = ref_three"

definition get6D_ten :: "unit \<Rightarrow> bool list \<Rightarrow> channel \<Rightarrow> matrix" where
  "get6D_ten P M k = (case k of Dist \<Rightarrow> [[0, 10], [10, 0]] | _ \<Rightarrow> [[0, 0], [0, 0]])"

section \<open>SequenceRelaxer: \<^verbatim>\<open>_get_seq\<close>\<close>

text \<open>
  The three protocols of \<^verbatim>\<open>mk_trdesign_model\<close> (\<^verbatim>\<open>"fixbb"\<close>, \<^verbatim>\<open>"hallucination"\<close>,
  \<^verbatim>\<open>"partial"\<close>), and a Python dictionary with string keys as an association list.
\<close>

datatype protocol = Fixbb | Hallucination | Partial

type_synonym 'a dict = "(string \<times> 'a) list"

text \<open>
  The options \<^verbatim>\<open>self.opt\<close>: \<^verbatim>\<open>temp\<close>, \<^verbatim>\<open>soft\<close>, \<^verbatim>\<open>hard\<close>, \<^verbatim>\<open>model.num\<close>,
  \<^verbatim>\<open>model.sample\<close>, the nested dictionary \<^verbatim>\<open>weights\<close> (loss term, then channel), and
  \<^verbatim>\<open>pos\<close>, a key that is present only after \<^verbatim>\<open>prep_inputs\<close> was given positions.
\<close>

record opt =
  o_temp :: real
  o_soft :: real
  o_hard :: real
  o_num :: int
  o_sample :: bool
  o_weights :: "real dict dict"
  o_pos :: "nat list option"

text \<open>The dictionary \<^verbatim>\<open>seq\<close> that \<^verbatim>\<open>_get_seq\<close> returns, one field per key.\<close>

record seq =
  v_input :: matrix
  v_logits :: matrix
  v_soft :: matrix
  v_hard :: matrix
  v_pseudo :: matrix

text \<open>Elementwise arithmetic on matrices of one shape.\<close>

definition scale :: "real \<Rightarrow> matrix \<Rightarrow> matrix" where
  "scale c x = map (map (\<lambda>v. c * v)) x"

definition divide_by :: "matrix \<Rightarrow> real \<Rightarrow> matrix" where
  "divide_by x c = map (map (\<lambda>v. v / c)) x"

definition add :: "matrix \<Rightarrow> matrix \<Rightarrow> matrix" where
  "add x y = map2 (map2 (\<lambda>a b. a + b)) x y"

definition sub :: "matrix \<Rightarrow> matrix \<Rightarrow> matrix" where
  "sub x y = map2 (map2 (\<lambda>a b. a - b)) x y"

text \<open>\<^verbatim>\<open>jax.nn.softmax\<close> and \<^verbatim>\<open>jax.nn.log_softmax\<close> along the last axis.\<close>

definition softmax :: "real list \<Rightarrow> real list" where
  "softmax xs = map (\<lambda>x. exp x / sum_list (map exp xs)) xs"

definition log_softmax :: "real list \<Rightarrow> real list" where
  "log_softmax xs = map (\<lambda>x. x - ln (sum_list (map exp xs))) xs"

text \<open>\<^verbatim>\<open>argmax(-1)\<close>: the first index that holds the largest entry of a row.\<close>

definition argmax :: "real list \<Rightarrow> nat" where
  "argmax xs = fold (\<lambda>i best. if xs ! best < xs ! i then i else best) [0..<length xs] 0"

text \<open>\<^verbatim>\<open>jax.nn.one_hot(i, n)\<close>: all zero when \<open>i\<close> is not below \<open>n\<close>.\<close>

definition one_hot :: "nat \<Rightarrow> nat \<Rightarrow> real list" where
  "one_hot i n = map (\<lambda>c. if i = c then 1 else 0) [0..<n]"

text \<open>
  \<^verbatim>\<open>x.at[pos,:].set(rows)\<close>: row \<open>pos[n]\<close> of \<open>x\<close> becomes \<open>rows[n]\<close>; an index beyond
  the last row is dropped, as JAX does for a scatter.
\<close>

definition at_set :: "'a list \<Rightarrow> nat list \<Rightarrow> 'a list \<Rightarrow> 'a list" where
  "at_set x pos rows = fold (\<lambda>(p, r) y. y[p := r]) (zip pos rows) x"

text \<open>
  \<^verbatim>\<open>_get_seq\<close>. Of the straight-through estimator
  \<^verbatim>\<open>stop_gradient(hard - soft) + soft\<close> the forward value is modelled: \<open>(hard - soft) + soft\<close>.
  The sequence matrices have 20 columns. In the partial protocol with \<^verbatim>\<open>"pos" in opt\<close>
  every entry of \<open>seq\<close> has its rows at \<open>pos\<close> overwritten with the one-hot rows of
  \<^verbatim>\<open>self._batch["aatype"]\<close>, which must be as many as the positions (or a single one,
  which is broadcast).
\<close>

definition get_seq :: "protocol \<Rightarrow> nat list \<Rightarrow> matrix dict \<Rightarrow> opt \<Rightarrow> error + seq" where
  "get_seq prot aatype params opt =
     (case map_of params ''seq'' of
        None \<Rightarrow> Inl KeyError
      | Some input \<Rightarrow>
         (let logits = scale 2 input;
              soft = map softmax (divide_by logits (o_temp opt));
              hard = map (\<lambda>r. one_hot (argmax r) 20) soft;
              hard = add (sub hard soft) soft;
              pseudo = add (scale (o_soft opt) soft) (scale (1 - o_soft opt) input);
              pseudo = add (scale (o_hard opt) hard) (scale (1 - o_hard opt) pseudo)
          in if prot = Partial \<and> o_pos opt \<noteq> None then
               (let pos = the (o_pos opt);
                    seq_ref = map (\<lambda>a. one_hot a 20) aatype
                in if length seq_ref = length pos \<or> length seq_ref = 1 then
                     (let rows = (if length seq_ref = length pos then seq_ref
                                  else replicate (length pos) (hd seq_ref))
                      in Inr \<lparr>v_input = at_set input pos rows,
                              v_logits = at_set logits pos rows,
                              v_soft = at_set soft pos rows,
                              v_hard = at_set hard pos rows,
                              v_pseudo = at_set pseudo pos rows\<rparr>)
                   else Inl ValueError)
             else Inr \<lparr>v_input = input, v_logits = logits, v_soft = soft, v_hard = hard,
                       v_pseudo = pseudo\<rparr>))"

section \<open>LossComposer: \<^verbatim>\<open>_get_loss\<close>\<close>

text \<open>The dictionary key of a channel.\<close>

fun name :: "channel \<Rightarrow> string" where
  "name Dist = ''dist''"
| "name Omega = ''omega''"
| "name Theta = ''theta''"
| "name Phi = ''phi''"

text \<open>
  The dictionary \<^verbatim>\<open>aux\<close>: the raw network outputs, the per-term per-channel losses, and
  the key \<^verbatim>\<open>"model_num"\<close> that \<^verbatim>\<open>run\<close> adds at its end.
\<close>

record aux =
  a_outputs :: "channel \<Rightarrow> tensor3"
  a_losses :: "real dict dict"
  a_model_num :: "nat list option"

text \<open>\<^verbatim>\<open>.mean()\<close> of the entries of an array, given flattened.\<close>

definition mean :: "real list \<Rightarrow> real" where
  "mean xs = sum_list xs / real (length xs)"

text \<open>Elementwise operations on stacks of one shape, \<^verbatim>\<open>.sum(-1)\<close> and \<^verbatim>\<open>.mean()\<close>.\<close>

definition t_map2 :: "(real \<Rightarrow> real \<Rightarrow> real) \<Rightarrow> tensor3 \<Rightarrow> tensor3 \<Rightarrow> tensor3" where
  "t_map2 f x y = map2 (map2 (map2 f)) x y"

definition sum_last :: "tensor3 \<Rightarrow> matrix" where
  "sum_last x = map (map sum_list) x"

definition mean_all :: "matrix \<Rightarrow> real" where
  "mean_all x = mean (concat x)"

text \<open>
  Indexing a JAX array with an index array, \<^verbatim>\<open>x[pos]\<close>: an index beyond the end is
  clamped to the last position. \<open>sub_matrix x pos\<close> is \<^verbatim>\<open>x[:,pos][pos,:]\<close>.
\<close>

definition take_idx :: "'a list \<Rightarrow> nat list \<Rightarrow> 'a list" where
  "take_idx xs pos = map (\<lambda>p. xs ! min p (length xs - 1)) pos"

definition sub_matrix :: "'a list list \<Rightarrow> nat list \<Rightarrow> 'a list list" where
  "sub_matrix x pos = take_idx (map (\<lambda>row. take_idx row pos) x) pos"

text \<open>
  One channel of the two loss terms:
  \<^verbatim>\<open>-(q[k]*log_p[k]).sum(-1).mean()\<close> and
  \<^verbatim>\<open>-(p[k]*(log_p[k]-log_q[k])).sum(-1).mean()\<close>.
\<close>

definition cce_channel :: "tensor3 \<Rightarrow> tensor3 \<Rightarrow> real" where
  "cce_channel q log_p = - mean_all (sum_last (t_map2 (\<lambda>a b. a * b) q log_p))"

definition bkg_channel :: "tensor3 \<Rightarrow> tensor3 \<Rightarrow> tensor3 \<Rightarrow> real" where
  "bkg_channel p log_p log_q =
     - mean_all (sum_last (t_map2 (\<lambda>a b. a * b) p (t_map2 (\<lambda>a b. a - b) log_p log_q)))"

text \<open>
  \<^verbatim>\<open>jax.tree_map(lambda l, w: l * w, losses, weights)\<close> on two-level dictionaries:
  JAX flattens the second tree up to the structure of the first and raises
  \<^verbatim>\<open>ValueError\<close> ("Dict key mismatch") unless both have the same keys at each level.
  \<^verbatim>\<open>jax.tree_leaves\<close> lists the leaves.
\<close>

definition same_keys :: "'a dict \<Rightarrow> 'b dict \<Rightarrow> bool" where
  "same_keys a b = (set (map fst a) = set (map fst b))"

definition tree_match :: "real dict dict \<Rightarrow> real dict dict \<Rightarrow> bool" where
  "tree_match losses weights =
     (same_keys losses weights \<and>
      list_all (\<lambda>(t, ls). case map_of weights t of
                             None \<Rightarrow> False
                           | Some ws \<Rightarrow> same_keys ls ws) losses)"

definition tree_map_mul :: "real dict dict \<Rightarrow> real dict dict \<Rightarrow> error + real dict dict" where
  "tree_map_mul losses weights =
     (if tree_match losses weights then
        Inr (map (\<lambda>(t, ls).
               (t, map (\<lambda>(c, l). (c, l * the (map_of (the (map_of weights t)) c))) ls)) losses)
      else Inl ValueError)"

definition tree_leaves :: "real dict dict \<Rightarrow> real list" where
  "tree_leaves d = concat (map (\<lambda>(t, ls). map snd ls) d)"

text \<open>
  The losses dictionary that \<^verbatim>\<open>_get_loss\<close> builds: the \<^verbatim>\<open>"bkg"\<close> term in the
  hallucination and the partial protocol, over the full predicted matrices; the
  \<^verbatim>\<open>"cce"\<close> term in the fixed-backbone and the partial protocol, in the partial protocol
  with \<^verbatim>\<open>"pos" in opt\<close> after \<^verbatim>\<open>log_p\<close> was cut down to \<^verbatim>\<open>x[:,pos][pos,:]\<close>.
\<close>

definition get_losses ::
  "protocol \<Rightarrow> (channel \<Rightarrow> tensor3) \<Rightarrow> (channel \<Rightarrow> tensor3) \<Rightarrow> (channel \<Rightarrow> tensor3) \<Rightarrow> opt
     \<Rightarrow> real dict dict" where
  "get_losses prot feats bkg_feats outputs opt =
     (let log_p = (\<lambda>k. map (map log_softmax) (outputs k));
          bkg = (if prot = Hallucination \<or> prot = Partial then
                   (let p = (\<lambda>k. map (map softmax) (outputs k));
                        log_q = (\<lambda>k. map (map log_softmax) (bkg_feats k))
                    in [(''bkg'', map (\<lambda>k. (name k, bkg_channel (p k) (log_p k) (log_q k)))
                                    channels)])
                 else []);
          cce = (if prot = Fixbb \<or> prot = Partial then
                   (let log_p = (if prot = Partial \<and> o_pos opt \<noteq> None
                                 then (\<lambda>k. sub_matrix (log_p k) (the (o_pos opt)))
                                 else log_p);
                        q = feats
                    in [(''cce'', map (\<lambda>k. (name k, cce_channel (q k) (log_p k))) channels)])
                 else [])
      in bkg @ cce)"

text \<open>\<^verbatim>\<open>_get_loss\<close>: the weighted total and \<^verbatim>\<open>aux\<close>.\<close>

definition get_loss ::
  "protocol \<Rightarrow> (channel \<Rightarrow> tensor3) \<Rightarrow> (channel \<Rightarrow> tensor3) \<Rightarrow> (channel \<Rightarrow> tensor3) \<Rightarrow> opt
     \<Rightarrow> error + real \<times> aux" where
  "get_loss prot feats bkg_feats outputs opt =
     (let losses = get_losses prot feats bkg_feats outputs opt
      in case tree_map_mul losses (o_weights opt) of
           Inl e \<Rightarrow> Inl e
         | Inr weighted_losses \<Rightarrow>
             Inr (sum_list (tree_leaves weighted_losses),
                  \<lparr>a_outputs = outputs, a_losses = losses, a_model_num = None\<rparr>))"

text \<open>
  \<^verbatim>\<open>_model\<close>. The network \<^verbatim>\<open>self._runner\<close> (\<^verbatim>\<open>TrRosetta\<close>, not part of the sources at
  hand) is the parameter \<open>runner\<close>: an opaque function from the pseudo-sequence and one
  parameter set to the four predicted stacks.
\<close>

definition model_fn ::
  "(matrix \<Rightarrow> 'mp \<Rightarrow> channel \<Rightarrow> tensor3) \<Rightarrow> protocol \<Rightarrow> nat list \<Rightarrow> (channel \<Rightarrow> tensor3)
     \<Rightarrow> (channel \<Rightarrow> tensor3) \<Rightarrow> matrix dict \<Rightarrow> 'mp \<Rightarrow> opt \<Rightarrow> error + real \<times> aux" where
  "model_fn runner prot aatype feats bkg_feats params model_params opt =
     (case get_seq prot aatype params opt of
        Inl e \<Rightarrow> Inl e
      | Inr seq \<Rightarrow>
          (let outputs = runner (v_pseudo seq) model_params
           in get_loss prot feats bkg_feats outputs opt))"

text \<open>
  \<^verbatim>\<open>jax.value_and_grad(_model, has_aux=True, argnums=0)\<close>: the value of the function
  together with the gradient of its loss in the first argument. Differentiation is the
  parameter \<open>D\<close>.
\<close>

definition value_and_grad ::
  "((matrix dict \<Rightarrow> error + real \<times> aux) \<Rightarrow> matrix dict \<Rightarrow> matrix dict)
     \<Rightarrow> (matrix dict \<Rightarrow> 'mp \<Rightarrow> opt \<Rightarrow> error + real \<times> aux)
     \<Rightarrow> matrix dict \<Rightarrow> 'mp \<Rightarrow> opt \<Rightarrow> error + (real \<times> aux) \<times> matrix dict" where
  "value_and_grad D f params model_params opt =
     (case f params model_params opt of
        Inl e \<Rightarrow> Inl e
      | Inr la \<Rightarrow> Inr (la, D (\<lambda>p. f p model_params opt) params))"

section \<open>DesignSession: \<^verbatim>\<open>run\<close>\<close>

text \<open>
  The attributes of a \<^verbatim>\<open>mk_trdesign_model\<close> object that \<^verbatim>\<open>run\<close> reads or writes.
  \<^verbatim>\<open>_loss\<close>, \<^verbatim>\<open>_aux\<close> and \<^verbatim>\<open>_grad\<close> do not exist before the first successful \<^verbatim>\<open>run\<close>.
  \<^verbatim>\<open>params\<close> is a dictionary of arrays (\<^verbatim>\<open>{"seq": ...}\<close>); a gradient has its shape.
\<close>

record ('key, 'mp) session =
  s_protocol :: protocol
  s_opt :: opt
  s_params :: "matrix dict"
  s_key :: 'key
  s_model_params :: "'mp list"
  s_aatype :: "nat list"
  s_feats :: "channel \<Rightarrow> tensor3"
  s_bkg_feats :: "channel \<Rightarrow> tensor3"
  s_loss :: "real option"
  s_aux :: "aux option"
  s_grad :: "matrix dict option"

text \<open>
  What \<^verbatim>\<open>run\<close> calls and the sources at hand do not hold: the network, JAX's
  differentiation, \<^verbatim>\<open>jax.random.split\<close> and \<^verbatim>\<open>jax.random.choice\<close> (with its
  \<^verbatim>\<open>replace\<close> argument), and \<^verbatim>\<open>update_dict\<close> of \<^verbatim>\<open>tr/src/utils.py\<close>, once for each
  of its four uses in \<^verbatim>\<open>run\<close>: \<^verbatim>\<open>update_dict(self.params, seq=seq)\<close>,
  \<^verbatim>\<open>update_dict(self.params, params)\<close>, \<^verbatim>\<open>set_opt(opt)\<close> and \<^verbatim>\<open>set_weights(weights)\<close>.
\<close>

record ('key, 'mp, 'sq, 'po, 'oo, 'wo) env =
  e_runner :: "matrix \<Rightarrow> 'mp \<Rightarrow> channel \<Rightarrow> tensor3"
  e_grad :: "(matrix dict \<Rightarrow> error + real \<times> aux) \<Rightarrow> matrix dict \<Rightarrow> matrix dict"
  e_split :: "'key \<Rightarrow> 'key \<times> 'key"
  e_choice :: "'key \<Rightarrow> nat list \<Rightarrow> nat \<Rightarrow> bool \<Rightarrow> nat list"
  e_update_seq :: "matrix dict \<Rightarrow> 'sq \<Rightarrow> matrix dict"
  e_update_params :: "matrix dict \<Rightarrow> 'po \<Rightarrow> matrix dict"
  e_set_opt :: "opt \<Rightarrow> 'oo \<Rightarrow> opt"
  e_set_weights :: "real dict dict \<Rightarrow> 'wo \<Rightarrow> real dict dict"

text \<open>Lines 145 to 148: the overrides are merged into the session first.\<close>

definition override ::
  "('key, 'mp, 'sq, 'po, 'oo, 'wo) env \<Rightarrow> 'sq \<Rightarrow> 'po \<Rightarrow> 'oo \<Rightarrow> 'wo
     \<Rightarrow> ('key, 'mp) session \<Rightarrow> ('key, 'mp) session" where
  "override e seq params opt weights s =
     (let s = s\<lparr>s_params := e_update_seq e (s_params s) seq\<rparr>;
          s = s\<lparr>s_params := e_update_params e (s_params s) params\<rparr>;
          s = s\<lparr>s_opt := e_set_opt e (s_opt s) opt\<rparr>;
          s = s\<lparr>s_opt := (s_opt s)\<lparr>o_weights := e_set_weights e (o_weights (s_opt s)) weights\<rparr>\<rparr>
      in s)"

text \<open>
  Lines 151 to 158: which ensemble members to use. \<^verbatim>\<open>ns[:m]\<close> is Python's slice (a
  negative \<open>m\<close> counts from the end); \<^verbatim>\<open>jax.random.choice\<close> without replacement raises
  for a sample larger than the population (and for a negative shape). The new key is
  stored before \<^verbatim>\<open>choice\<close> is called.
\<close>

definition slice_to :: "'a list \<Rightarrow> int \<Rightarrow> 'a list" where
  "slice_to xs m = take (nat (if m < 0 then int (length xs) + m else m)) xs"

definition select_models ::
  "('key, 'mp, 'sq, 'po, 'oo, 'wo) env \<Rightarrow> ('key, 'mp) session
     \<Rightarrow> ('key, 'mp) session \<times> (error + nat list)" where
  "select_models e s =
     (let m = o_num (s_opt s);
          ns = [0..<5]
      in if o_sample (s_opt s) \<and> m \<noteq> int (length ns) then
           (let (new_key, key) = e_split e (s_key s);
                s = s\<lparr>s_key := new_key\<rparr>
            in (s, if m < 0 \<or> int (length ns) < m then Inl ValueError
                   else Inr (e_choice e key ns (nat m) False)))
         else (s, Inr (slice_to ns m)))"

text \<open>
  Lines 160 to 170: one call per selected member, in order; the first failure ends the
  loop. \<open>fn\<close> is \<^verbatim>\<open>self._fn(self.params, model_params, self.opt)\<close> and \<open>grad_fn\<close> is
  \<^verbatim>\<open>self._grad_fn(...)\<close> for the session at hand.
\<close>

definition fn ::
  "('key, 'mp, 'sq, 'po, 'oo, 'wo) env \<Rightarrow> ('key, 'mp) session \<Rightarrow> matrix dict \<Rightarrow> 'mp \<Rightarrow> opt
     \<Rightarrow> error + real \<times> aux" where
  "fn e s = model_fn (e_runner e) (s_protocol s) (s_aatype s) (s_feats s) (s_bkg_feats s)"

definition grad_fn ::
  "('key, 'mp, 'sq, 'po, 'oo, 'wo) env \<Rightarrow> ('key, 'mp) session \<Rightarrow> matrix dict \<Rightarrow> 'mp \<Rightarrow> opt
     \<Rightarrow> error + (real \<times> aux) \<times> matrix dict" where
  "grad_fn e s = value_and_grad (e_grad e) (fn e s)"

definition call_one ::
  "('key, 'mp, 'sq, 'po, 'oo, 'wo) env \<Rightarrow> ('key, 'mp) session \<Rightarrow> bool \<Rightarrow> nat
     \<Rightarrow> error + (real \<times> aux) \<times> matrix dict option" where
  "call_one e s backprop n =
     (if length (s_model_params s) \<le> n then Inl IndexError
      else
        (let model_params = s_model_params s ! n
         in if backprop then
              (case grad_fn e s (s_params s) model_params (s_opt s) of
                 Inl err \<Rightarrow> Inl err
               | Inr (la, g) \<Rightarrow> Inr (la, Some g))
            else
              (case fn e s (s_params s) model_params (s_opt s) of
                 Inl err \<Rightarrow> Inl err
               | Inr la \<Rightarrow> Inr (la, None))))"

fun run_serial :: "(nat \<Rightarrow> error + 'r) \<Rightarrow> nat list \<Rightarrow> error + 'r list" where
  "run_serial f [] = Inr []"
| "run_serial f (n # ns) =
     (case f n of
        Inl err \<Rightarrow> Inl err
      | Inr r \<Rightarrow> (case run_serial f ns of Inl err \<Rightarrow> Inl err | Inr rs \<Rightarrow> Inr (r # rs)))"

text \<open>
  Lines 173 to 179: \<^verbatim>\<open>jnp.stack(v).mean(0)\<close> is the elementwise mean of arrays of one
  shape, \<^verbatim>\<open>jax.tree_map\<close> applies it leaf by leaf to trees of one structure.
\<close>

definition stack_mean_with :: "('a list \<Rightarrow> 'a) \<Rightarrow> 'a list list \<Rightarrow> 'a list" where
  "stack_mean_with f vs = map (\<lambda>i. f (map (\<lambda>v. v ! i) vs)) [0..<length (hd vs)]"

definition stack_mean1 :: "real list list \<Rightarrow> real list" where
  "stack_mean1 = stack_mean_with mean"

definition stack_mean2 :: "matrix list \<Rightarrow> matrix" where
  "stack_mean2 = stack_mean_with stack_mean1"

definition stack_mean3 :: "tensor3 list \<Rightarrow> tensor3" where
  "stack_mean3 = stack_mean_with stack_mean2"

definition lookup2 :: "'a dict dict \<Rightarrow> string \<Rightarrow> string \<Rightarrow> 'a" where
  "lookup2 d t c = the (map_of (the (map_of d t)) c)"

definition aux_mean :: "aux list \<Rightarrow> aux" where
  "aux_mean as =
     \<lparr>a_outputs = (\<lambda>k. stack_mean3 (map (\<lambda>a. a_outputs a k) as)),
      a_losses = map (\<lambda>(t, ls).
                   (t, map (\<lambda>(c, l). (c, mean (map (\<lambda>a. lookup2 (a_losses a) t c) as))) ls))
                   (a_losses (hd as)),
      a_model_num = None\<rparr>"

definition grad_mean :: "matrix dict list \<Rightarrow> matrix dict" where
  "grad_mean gs =
     map (\<lambda>(k, v). (k, stack_mean2 (map (\<lambda>g. the (map_of g k)) gs))) (hd gs)"

definition zeros_like :: "matrix \<Rightarrow> matrix" where
  "zeros_like x = map (map (\<lambda>v. 0)) x"

text \<open>
  \<^verbatim>\<open>run\<close>. The result is the exception raised, if any, and the session as the call
  leaves it. The cached fields are written last.
\<close>

definition run ::
  "('key, 'mp, 'sq, 'po, 'oo, 'wo) env \<Rightarrow> 'sq \<Rightarrow> 'po \<Rightarrow> 'oo \<Rightarrow> 'wo \<Rightarrow> bool
     \<Rightarrow> ('key, 'mp) session \<Rightarrow> error option \<times> ('key, 'mp) session" where
  "run e seq params opt weights backprop s =
     (let s = override e seq params opt weights s;
          (s, chosen) = select_models e s
      in case chosen of
           Inl err \<Rightarrow> (Some err, s)
         | Inr model_num \<Rightarrow>
            (case run_serial (call_one e s backprop) model_num of
               Inl err \<Rightarrow> (Some err, s)
             | Inr rs \<Rightarrow>
                (let losses = map (\<lambda>r. fst (fst r)) rs;
                     auxs = map (\<lambda>r. snd (fst r)) rs;
                     grads = map (\<lambda>r. the (snd r)) rs
                 in if 1 < length model_num then
                      (None, s\<lparr>s_loss := Some (mean losses),
                                s_aux := Some ((aux_mean auxs)\<lparr>a_model_num := Some model_num\<rparr>),
                                s_grad := Some (if backprop then grad_mean grads
                                                else map (\<lambda>(k, v). (k, zeros_like v)) (s_params s))\<rparr>)
                    else if rs = [] then (Some IndexError, s)
                    else
                      (None, s\<lparr>s_loss := Some (hd losses),
                                s_aux := Some ((hd auxs)\<lparr>a_model_num := Some model_num\<rparr>),
                                s_grad := Some (if backprop then hd grads
                                                else map (\<lambda>(k, v). (k, zeros_like v)) (s_params s))\<rparr>))))"

text \<open>
  Concrete inputs for the relaxer: one residue with all-zero logits, the default options
  (\<open>temp = soft = hard = 1\<close>) and the fully continuous ones (\<open>soft = hard = 0\<close>).
\<close>

definition params_zero :: "matrix dict" where
  "params_zero = [(''seq'', [replicate 20 0])]"

definition opt_default :: opt where
  "opt_default = \<lparr>o_temp = 1, o_soft = 1, o_hard = 1, o_num = 1, o_sample = True,
                   o_weights = [], o_pos = None\<rparr>"


text \<open>
  Concrete inputs for the loss: predicted and target stacks for one residue and one bin,
  and the weights that \<^verbatim>\<open>prep_inputs\<close> sets for the \<^verbatim>\<open>"cce"\<close> term.
\<close>

definition stack_one :: "channel \<Rightarrow> tensor3" where
  "stack_one k = [[[0]]]"

definition weights_cce :: "real dict dict" where
  "weights_cce =
     [(''cce'', [(''dist'', 1 / 6), (''omega'', 1 / 6), (''theta'', 2 / 6), (''phi'', 2 / 6)])]"

definition opt_cce :: opt where
  "opt_cce = opt_default\<lparr>o_weights := weights_cce\<rparr>"

text \<open>
  A partial design on one residue: the reference amino acid is type 3, the logits favour
  type 7, the position index set is \<open>[0]\<close>, and both loss terms have their weights.
\<close>

definition weights_both :: "real dict dict" where
  "weights_both =
     [(''cce'', [(''dist'', 1 / 6), (''omega'', 1 / 6), (''theta'', 2 / 6), (''phi'', 2 / 6)]),
      (''bkg'', [(''dist'', 1 / 6), (''omega'', 1 / 6), (''theta'', 2 / 6), (''phi'', 2 / 6)])]"

definition opt_partial :: opt where
  "opt_partial = opt_default\<lparr>o_weights := weights_both, o_pos := Some [0]\<rparr>"

definition params_seven :: "matrix dict" where
  "params_seven = [(''seq'', [one_hot 7 20])]"

text \<open>
  The session as lines 145 to 158 of \<^verbatim>\<open>run\<close> leave it (the overrides merged, the key
  split if members are sampled), and the members they select; named for use in
  statements.
\<close>

definition prepared ::
  "('key, 'mp, 'sq, 'po, 'oo, 'wo) env \<Rightarrow> 'sq \<Rightarrow> 'po \<Rightarrow> 'oo \<Rightarrow> 'wo
     \<Rightarrow> ('key, 'mp) session \<Rightarrow> ('key, 'mp) session" where
  "prepared e seq params opt weights s =
     fst (select_models e (override e seq params opt weights s))"

definition selected ::
  "('key, 'mp, 'sq, 'po, 'oo, 'wo) env \<Rightarrow> 'sq \<Rightarrow> 'po \<Rightarrow> 'oo \<Rightarrow> 'wo
     \<Rightarrow> ('key, 'mp) session \<Rightarrow> error + nat list" where
  "selected e seq params opt weights s =
     snd (select_models e (override e seq params opt weights s))"

text \<open>
  A concrete environment and concrete sessions: keys are numbers and splitting a key
  \<open>k\<close> gives \<open>(k + 1, k + 2)\<close>; \<open>choice\<close> draws the first members; the network returns
  one pair with one bin; the gradient is all ones; no override changes anything. The
  session is a fixed-backbone design on one residue with the five parameter sets.
\<close>

definition env_demo :: "(nat, unit, unit, unit, unit, unit) env" where
  "env_demo =
     \<lparr>e_runner = (\<lambda>x model_params k. [[[0]]]),
      e_grad = (\<lambda>f params. map (\<lambda>(k, v). (k, map (map (\<lambda>x. 1)) v)) params),
      e_split = (\<lambda>k. (k + 1, k + 2)),
      e_choice = (\<lambda>key ns m replace. take m ns),
      e_update_seq = (\<lambda>d x. d),
      e_update_params = (\<lambda>d x. d),
      e_set_opt = (\<lambda>d x. d),
      e_set_weights = (\<lambda>d x. d)\<rparr>"

definition session_demo :: "opt \<Rightarrow> (nat, unit) session" where
  "session_demo opt =
     \<lparr>s_protocol = Fixbb, s_opt = opt, s_params = params_zero, s_key = 0,
      s_model_params = [(), (), (), (), ()], s_aatype = [], s_feats = stack_one,
      s_bkg_feats = stack_one, s_loss = None, s_aux = None, s_grad = None\<rparr>"

text \<open>The options of a run on the full ensemble: \<open>model.num = 5\<close>, sampling enabled.\<close>

definition opt_full :: opt where
  "opt_full = opt_cce\<lparr>o_num := 5\<rparr>"

text \<open>What one member returns in the concrete environment when the weights match.\<close>

definition aux_zero :: aux where
  "aux_zero =
     \<lparr>a_outputs = (\<lambda>k. [[[0]]]),
      a_losses = [(''cce'', [(''dist'', 0), (''omega'', 0), (''theta'', 0), (''phi'', 0)])],
      a_model_num = None\<rparr>"

text \<open>
  One separately computed single-instance call on a session,
  \<^verbatim>\<open>self._fn(self.params, self._model_params[n], self.opt)\<close>, its loss and its auxiliary
  outputs, and the gradient that \<^verbatim>\<open>self._grad_fn\<close> returns with it; named for use in
  statements.
\<close>

definition single ::
  "('key, 'mp, 'sq, 'po, 'oo, 'wo) env \<Rightarrow> ('key, 'mp) session \<Rightarrow> nat \<Rightarrow> error + real \<times> aux" where
  "single e s n = fn e s (s_params s) (s_model_params s ! n) (s_opt s)"

definition single_loss ::
  "('key, 'mp, 'sq, 'po, 'oo, 'wo) env \<Rightarrow> ('key, 'mp) session \<Rightarrow> nat \<Rightarrow> real" where
  "single_loss e s n = fst (projr (single e s n))"

definition single_aux ::
  "('key, 'mp, 'sq, 'po, 'oo, 'wo) env \<Rightarrow> ('key, 'mp) session \<Rightarrow> nat \<Rightarrow> aux" where
  "single_aux e s n = snd (projr (single e s n))"

definition single_grad ::
  "('key, 'mp, 'sq, 'po, 'oo, 'wo) env \<Rightarrow> ('key, 'mp) session \<Rightarrow> nat \<Rightarrow> matrix dict" where
  "single_grad e s n =
     e_grad e (\<lambda>p. fn e s p (s_model_params s ! n) (s_opt s)) (s_params s)"


section \<open>Properties of the binner\<close>

lemma length_linspace: "length (linspace a b n) = n"
  by (simp add: linspace_def)

lemma digitize_le: "digitize x bins \<le> length bins"
  by (simp add: digitize_def length_takeWhile_le)

lemma digitize_full_iff: "digitize x bins = length bins \<longleftrightarrow> (\<forall>b\<in>set bins. b \<le> x)"
proof
  assume "digitize x bins = length bins"
  then have "takeWhile (\<lambda>b. b \<le> x) bins = bins"
    unfolding digitize_def by (metis takeWhile_eq_take take_all order_refl)
  then show "\<forall>b\<in>set bins. b \<le> x"
    by (simp add: takeWhile_eq_all_conv)
next
  assume "\<forall>b\<in>set bins. b \<le> x"
  then have "takeWhile (\<lambda>b. b \<le> x) bins = bins"
    by (simp add: takeWhile_eq_all_conv)
  then show "digitize x bins = length bins"
    by (simp only: digitize_def)
qed

lemma linspace_nth:
  assumes "i < n"
  shows "linspace a b n ! i = a + real i * ((b - a) / real (n - 1))"
  using assms by (simp add: linspace_def)

lemma linspace_le_stop:
  assumes "a \<le> b" and "v \<in> set (linspace a b n)"
  shows "v \<le> b"
proof -
  from assms(2) obtain i where i: "i < n" and v: "v = a + real i * ((b - a) / real (n - 1))"
    by (auto simp: linspace_def)
  have "real i \<le> real (n - 1)" using i by simp
  moreover have "0 \<le> (b - a) / real (n - 1)" using assms(1) by simp
  ultimately have "real i * ((b - a) / real (n - 1)) \<le> real (n - 1) * ((b - a) / real (n - 1))"
    by (rule mult_right_mono)
  also have "\<dots> \<le> b - a"
    using assms(1) by (cases "n - 1 = 0") simp_all
  finally show ?thesis using v by simp
qed

lemma linspace_stop_mem:
  assumes "2 \<le> n"
  shows "b \<in> set (linspace a b n)"
proof -
  have "linspace a b n ! (n - 1) = b"
    using assms by (simp add: linspace_nth)
  moreover have "n - 1 < length (linspace a b n)"
    using assms by (simp add: length_linspace)
  ultimately show ?thesis by (metis nth_mem)
qed

lemma digitize_linspace_full_iff:
  assumes "a \<le> b" and "2 \<le> n"
  shows "digitize x (linspace a b n) = n \<longleftrightarrow> b \<le> x"
proof -
  have "digitize x (linspace a b n) = n \<longleftrightarrow> (\<forall>v\<in>set (linspace a b n). v \<le> x)"
    using digitize_full_iff [of x "linspace a b n"] by (simp add: length_linspace)
  also have "\<dots> \<longleftrightarrow> b \<le> x"
    using linspace_le_stop [OF assms(1)] linspace_stop_mem [OF assms(2)]
    by (meson order_trans)
  finally show ?thesis .
qed

lemma digitize_linspace_below:
  assumes "x < a" and "0 < n"
  shows "digitize x (linspace a b n) = 0"
proof -
  have "linspace a b n = a # map (\<lambda>i. a + real i * ((b - a) / real (n - 1))) [Suc 0..<n]"
    using assms(2) by (simp add: linspace_def upt_conv_Cons)
  then show ?thesis using assms(1) by (simp add: digitize_def)
qed

lemma butlast_eye_row: "butlast (eye_row (Suc n) k) = eye_row n k"
  by (simp add: eye_row_def)

lemma sum_list_eye_row: "sum_list (eye_row n k) = (if k < n then 1 else 0)"
proof (induction n)
  case 0
  then show ?case by (simp add: eye_row_def)
next
  case (Suc n)
  have "eye_row (Suc n) k = eye_row n k @ [if n = k then 1 else 0]"
    by (simp add: eye_row_def)
  then show ?case using Suc by auto
qed

lemma eye_row_entries: "v \<in> set (eye_row n k) \<Longrightarrow> v = 0 \<or> v = 1"
  by (auto simp: eye_row_def)

lemma eye_row_nth: "c < n \<Longrightarrow> eye_row n k ! c = (if c = k then 1 else 0)"
  by (simp add: eye_row_def)

lemma length_eye_row: "length (eye_row n k) = n"
  by (simp add: eye_row_def)

lemma mtx2bins_nth:
  assumes "i < length x_ref" "i < length msk" "j < length (x_ref ! i)" "j < length (msk ! i)"
  shows "mtx2bins x_ref a b n msk ! i ! j = eye_row n (x_true a b n (msk ! i ! j) (x_ref ! i ! j))"
  using assms by (simp add: mtx2bins_def butlast_eye_row)

lemma pair_mask_nth:
  assumes "i < length d" "j < length d"
  shows "pair_mask d ! i ! j = (20 < d ! i ! j \<or> i = j)"
  using assms by (simp add: pair_mask_def)

lemma length_pair_mask: "length (pair_mask d) = length d"
  by (simp add: pair_mask_def)

lemma length_pair_mask_row: "i < length d \<Longrightarrow> length (pair_mask d ! i) = length d"
  by (simp add: pair_mask_def)

lemma square_nth: "square L m \<Longrightarrow> i < L \<Longrightarrow> length (m ! i) = L"
  by (simp add: square_def list_all_length)

lemma square_length: "square L m \<Longrightarrow> length m = L"
  by (simp add: square_def)

text \<open>
  What a successful call returns, pair by pair: the identity row of the channel's bin
  count at the pair's bin index.
\<close>

lemma binned_entry:
  assumes ok: "np_get_6D_binned get6D P M = Inr feats"
    and i: "i < length (get6D P M Dist)" and j: "j < length (get6D P M Dist)"
  shows "feats k ! i ! j =
    eye_row (nbins_of k)
      (x_true (lower_edge k) (upper_edge k) (nbins_of k)
         (20 < get6D P M Dist ! i ! j \<or> i = j) (get6D P M k ! i ! j))"
proof -
  define ref where "ref = get6D P M"
  define L where "L = length (ref Dist)"
  from ok have sq: "list_all (\<lambda>k. square L (ref k)) channels"
    and feats: "feats = (\<lambda>k. case k of
                  Dist \<Rightarrow> mtx2bins (ref Dist) 2 20 37 (pair_mask (ref Dist))
                | Omega \<Rightarrow> mtx2bins (ref Omega) (- pi) pi 25 (pair_mask (ref Dist))
                | Theta \<Rightarrow> mtx2bins (ref Theta) (- pi) pi 25 (pair_mask (ref Dist))
                | Phi \<Rightarrow> mtx2bins (ref Phi) 0 pi 13 (pair_mask (ref Dist)))"
    unfolding np_get_6D_binned_def ref_def L_def
    by (auto simp: Let_def split: if_splits)
  have sqk: "square L (ref k)" for k
    using sq by (cases k) (simp_all add: channels_def)
  have iL: "i < L" and jL: "j < L" using i j by (simp_all add: ref_def L_def)
  have len: "length (ref k) = L" "length (ref k ! i) = L" for k
    using sqk [of k] iL by (simp_all add: square_length square_nth)
  have m: "pair_mask (ref Dist) ! i ! j = (20 < ref Dist ! i ! j \<or> i = j)"
    using iL jL len [of Dist] by (simp add: pair_mask_nth)
  have ml: "i < length (pair_mask (ref Dist))" "j < length (pair_mask (ref Dist) ! i)"
    using iL jL len [of Dist] by (simp_all add: length_pair_mask length_pair_mask_row)
  have "mtx2bins (ref k) a b n (pair_mask (ref Dist)) ! i ! j =
      eye_row n (x_true a b n (20 < ref Dist ! i ! j \<or> i = j) (ref k ! i ! j))" for a b n
    using mtx2bins_nth [of i "ref k" "pair_mask (ref Dist)" j a b n] ml iL jL len [of k] m
    by simp
  then show ?thesis
    unfolding feats ref_def [symmetric] by (cases k) simp_all
qed

lemma x_true_lt_iff:
  assumes "a \<le> b" and "2 \<le> n" and "n < 256"
  shows "x_true a b n m x < n \<longleftrightarrow> m \<or> x < b"
proof -
  have le: "digitize x (linspace a b n) \<le> n"
    using digitize_le [of x "linspace a b n"] by (simp add: length_linspace)
  then have md: "digitize x (linspace a b n) mod 256 = digitize x (linspace a b n)"
    using assms(3) by simp
  have "digitize x (linspace a b n) < n \<longleftrightarrow> x < b"
    using digitize_linspace_full_iff [OF assms(1,2), of x] le by auto
  then show ?thesis
    using assms(2) by (auto simp: x_true_def Let_def md)
qed

lemma edges_ok: "lower_edge k \<le> upper_edge k \<and> 2 \<le> nbins_of k \<and> nbins_of k < 256"
  by (cases k) simp_all

lemma eye_row_zero:
  assumes "0 < n"
  shows "eye_row n 0 = 1 # replicate (n - 1) 0"
proof (rule nth_equalityI)
  show "length (eye_row n 0) = length (1 # replicate (n - 1) (0::real))"
    using assms by (simp add: length_eye_row)
next
  fix i
  assume "i < length (eye_row n 0)"
  then have "i < n" by (simp add: length_eye_row)
  then show "eye_row n 0 ! i = (1 # replicate (n - 1) 0) ! i"
    by (cases i) (simp_all add: eye_row_nth)
qed

lemma eye_row_out_of_range: "n \<le> k \<Longrightarrow> eye_row n k = replicate n 0"
  by (simp add: eye_row_def list_eq_iff_nth_eq)

lemma binned_three_ok:
  "np_get_6D_binned get6D_three () [True, True, False] =
     Inr (projr (np_get_6D_binned get6D_three () [True, True, False]))"
  by (simp add: np_get_6D_binned_def get6D_three_def ref_three_def channels_def square_def Let_def)

subsection \<open>Rows of the target distributions\<close>

text \<open>
  C1, as the specification states it, fails: a pair that is not masked and whose raw
  value is exactly the upper domain edge is digitized to index \<open>nbins\<close>, the column that
  \<^verbatim>\<open>[...,:-1]\<close> drops. Two residues at distance exactly 20 get the all-zero row in the
  dist channel (sum 0, no bin set).
\<close>

theorem binner_upper_edge_row_is_zero:
  "(case np_get_6D_binned (\<lambda>P M. ref_edge) () () of
      Inl e \<Rightarrow> None
    | Inr feats \<Rightarrow> Some (feats Dist ! 0 ! 1, sum_list (feats Dist ! 0 ! 1))) =
   Some (replicate 37 0, 0)"
proof -
  define out where "out = projr (np_get_6D_binned (\<lambda>P M. ref_edge) () ())"
  have ok: "np_get_6D_binned (\<lambda>P M. ref_edge) () () = Inr out"
    unfolding out_def
    by (simp add: np_get_6D_binned_def ref_edge_def channels_def square_def Let_def)
  from binned_entry [OF ok, of 0 1 Dist]
  have row: "out Dist ! 0 ! 1 = eye_row 37 (x_true 2 20 37 False 20)"
    by (simp add: ref_edge_def)
  have "x_true 2 20 37 False 20 = 37"
    by (simp add: x_true_def linspace_def digitize_def upt_rec)
  with row have "out Dist ! 0 ! 1 = replicate 37 0"
    by (simp add: eye_row_out_of_range)
  moreover have "sum_list (replicate n (0::real)) = 0" for n
    by (induction n) simp_all
  ultimately show ?thesis
    unfolding ok by simp
qed

text \<open>
  C1, amended: in every output of the binner, each pair's bin vector in each of the four
  channels has the channel's bin count as its length, holds only the entries 0 and 1 (so
  none is negative), and sums to 1 when the pair is masked or its raw value is below the
  channel's upper domain edge; for a pair that is not masked and whose raw value is at or
  above the upper edge, it sums to 0.
\<close>

theorem binner_row_sum:
  assumes "np_get_6D_binned get6D P M = Inr feats"
    and "i < length (get6D P M Dist)" and "j < length (get6D P M Dist)"
  shows "length (feats k ! i ! j) = nbins_of k
    \<and> (\<forall>v \<in> set (feats k ! i ! j). v = 0 \<or> v = 1)
    \<and> sum_list (feats k ! i ! j) =
        (if (20 < get6D P M Dist ! i ! j \<or> i = j) \<or> get6D P M k ! i ! j < upper_edge k
         then 1 else 0)"
proof -
  let ?m = "20 < get6D P M Dist ! i ! j \<or> i = j"
  let ?t = "x_true (lower_edge k) (upper_edge k) (nbins_of k) ?m (get6D P M k ! i ! j)"
  have row: "feats k ! i ! j = eye_row (nbins_of k) ?t"
    by (rule binned_entry [OF assms])
  have "?t < nbins_of k \<longleftrightarrow> ?m \<or> get6D P M k ! i ! j < upper_edge k"
    using edges_ok [of k] by (intro x_true_lt_iff) simp_all
  then have "sum_list (feats k ! i ! j) =
      (if ?m \<or> get6D P M k ! i ! j < upper_edge k then 1 else 0)"
    unfolding row sum_list_eye_row by simp
  moreover have "\<forall>v \<in> set (feats k ! i ! j). v = 0 \<or> v = 1"
    unfolding row using eye_row_entries by blast
  moreover have "length (feats k ! i ! j) = nbins_of k"
    unfolding row by (rule length_eye_row)
  ultimately show ?thesis by blast
qed

theorem binner_row_sum_witness:
  "(0::nat) < length (get6D_three () [True, True, False] Dist)
   \<and> (1::nat) < length (get6D_three () [True, True, False] Dist)
   \<and> length (projr (np_get_6D_binned get6D_three () [True, True, False]) Dist ! 0 ! 1) = 37
   \<and> sum_list (projr (np_get_6D_binned get6D_three () [True, True, False]) Dist ! 0 ! 1) = 1"
  using binner_row_sum [OF binned_three_ok, of 0 1 Dist]
  by (simp add: get6D_three_def ref_three_def)

subsection \<open>Masked pairs\<close>

lemma x_true_masked: "x_true a b n True x = 0"
  by (simp add: x_true_def)

lemma x_true_unmasked:
  assumes "n < 256"
  shows "x_true a b n False x = digitize x (linspace a b n)"
proof -
  have "digitize x (linspace a b n) \<le> n"
    using digitize_le [of x "linspace a b n"] by (simp add: length_linspace)
  then show ?thesis
    using assms by (simp add: x_true_def)
qed

lemma eye_row_at:
  assumes "k < n"
  shows "eye_row n k = replicate k 0 @ 1 # replicate (n - Suc k) 0"
proof (rule nth_equalityI)
  show "length (eye_row n k) = length (replicate k (0::real) @ 1 # replicate (n - Suc k) 0)"
    using assms by (simp add: length_eye_row)
next
  fix i
  assume "i < length (eye_row n k)"
  then have "i < n" by (simp add: length_eye_row)
  then show "eye_row n k ! i = (replicate k 0 @ 1 # replicate (n - Suc k) 0) ! i"
    using assms by (auto simp: eye_row_nth nth_append nth_Cons')
qed

lemma binned_mask_free:
  assumes "get6D P M' = get6D P M"
  shows "np_get_6D_binned get6D P M' = np_get_6D_binned get6D P M"
  by (simp add: np_get_6D_binned_def assms)

text \<open>
  C2, as the specification states it, fails in its third case: the mask of the binner
  never reads the atom mask. Two residues, the second with atoms marked missing, for
  which the raw geometry reports the distance 10: the pair is not put in bin 0 but in
  its natural bin, index 17 of the dist channel.
\<close>

theorem missing_atom_pair_keeps_its_bin:
  "(case np_get_6D_binned get6D_ten () [True, False] of
      Inl e \<Rightarrow> None
    | Inr feats \<Rightarrow> Some (feats Dist ! 0 ! 1)) =
   Some (replicate 17 0 @ 1 # replicate 19 0)"
proof -
  define out where "out = projr (np_get_6D_binned get6D_ten () [True, False])"
  have ok: "np_get_6D_binned get6D_ten () [True, False] = Inr out"
    unfolding out_def
    by (simp add: np_get_6D_binned_def get6D_ten_def channels_def square_def Let_def)
  from binned_entry [OF ok, of 0 1 Dist]
  have row: "out Dist ! 0 ! 1 = eye_row 37 (x_true 2 20 37 False 10)"
    by (simp add: get6D_ten_def)
  have "x_true 2 20 37 False 10 = 17"
    by (simp add: x_true_def linspace_def digitize_def upt_rec)
  moreover have "eye_row 37 17 = replicate 17 0 @ 1 # replicate 19 0"
    using eye_row_at [of 17 37] by simp
  ultimately have "out Dist ! 0 ! 1 = replicate 17 0 @ 1 # replicate 19 0"
    using row by simp
  then show ?thesis
    unfolding ok by simp
qed

text \<open>
  C2, amended: a pair that is a self-pair or whose raw distance exceeds 20 gets bin
  index 0 (the one-hot vector with its 1 at position 0) in all four channels, whatever
  its raw values are. The mask is one function of the distance matrix and of \<open>i = j\<close>,
  the same for the four channels: every other pair gets, in each channel, the bin that
  \<^verbatim>\<open>np.digitize\<close> gives its raw value. The atom mask is not part of the mask: it
  reaches the output only through the raw geometry, so a pair with atoms marked missing
  is in bin 0 only if it is a self-pair or its reported distance exceeds 20.
\<close>

theorem masked_pairs_in_bin_zero:
  assumes "np_get_6D_binned get6D P M = Inr feats"
    and "i < length (get6D P M Dist)" and "j < length (get6D P M Dist)"
  shows "(i = j \<or> 20 < get6D P M Dist ! i ! j \<longrightarrow>
            (\<forall>k. feats k ! i ! j = 1 # replicate (nbins_of k - 1) 0))
    \<and> (\<forall>k. feats k ! i ! j =
          eye_row (nbins_of k)
            (if 20 < get6D P M Dist ! i ! j \<or> i = j then 0
             else digitize (get6D P M k ! i ! j)
                    (linspace (lower_edge k) (upper_edge k) (nbins_of k))))
    \<and> (\<forall>M'. get6D P M' = get6D P M \<longrightarrow> np_get_6D_binned get6D P M' = Inr feats)"
proof -
  have entry: "feats k ! i ! j =
      eye_row (nbins_of k)
        (if 20 < get6D P M Dist ! i ! j \<or> i = j then 0
         else digitize (get6D P M k ! i ! j)
                (linspace (lower_edge k) (upper_edge k) (nbins_of k)))" for k
  proof -
    have "feats k ! i ! j =
        eye_row (nbins_of k)
          (x_true (lower_edge k) (upper_edge k) (nbins_of k)
             (20 < get6D P M Dist ! i ! j \<or> i = j) (get6D P M k ! i ! j))"
      by (rule binned_entry [OF assms])
    then show ?thesis
      using edges_ok [of k] by (simp add: x_true_masked x_true_unmasked)
  qed
  have zero: "feats k ! i ! j = 1 # replicate (nbins_of k - 1) 0"
    if "i = j \<or> 20 < get6D P M Dist ! i ! j" for k
  proof -
    have "feats k ! i ! j = eye_row (nbins_of k) 0"
      using entry [of k] that by auto
    also have "\<dots> = 1 # replicate (nbins_of k - 1) 0"
      using edges_ok [of k] by (intro eye_row_zero) simp
    finally show ?thesis .
  qed
  have "np_get_6D_binned get6D P M' = Inr feats" if "get6D P M' = get6D P M" for M'
    using that assms(1) by (simp add: np_get_6D_binned_def)
  with entry zero show ?thesis by blast
qed

theorem masked_pairs_in_bin_zero_witness:
  "projr (np_get_6D_binned get6D_three () [True, True, False]) Theta ! 1 ! 2 =
     1 # replicate 24 0
   \<and> projr (np_get_6D_binned get6D_three () [True, True, False]) Dist ! 0 ! 2 =
     1 # replicate 36 0
   \<and> projr (np_get_6D_binned get6D_three () [True, True, False]) Phi ! 1 ! 1 =
     1 # replicate 12 0
   \<and> np_get_6D_binned get6D_three () [True, True, True] =
     Inr (projr (np_get_6D_binned get6D_three () [True, True, False]))"
proof -
  let ?out = "projr (np_get_6D_binned get6D_three () [True, True, False])"
  have len: "length (get6D_three () [True, True, False] Dist) = 3"
    by (simp add: get6D_three_def ref_three_def)
  have "?out Theta ! 1 ! 2 = 1 # replicate (nbins_of Theta - 1) 0"
    using masked_pairs_in_bin_zero [OF binned_three_ok, of 1 2, THEN conjunct1] len
    by (simp add: get6D_three_def ref_three_def)
  moreover have "?out Dist ! 0 ! 2 = 1 # replicate (nbins_of Dist - 1) 0"
    using masked_pairs_in_bin_zero [OF binned_three_ok, of 0 2, THEN conjunct1] len
    by (simp add: get6D_three_def ref_three_def)
  moreover have "?out Phi ! 1 ! 1 = 1 # replicate (nbins_of Phi - 1) 0"
    using masked_pairs_in_bin_zero [OF binned_three_ok, of 1 1, THEN conjunct1] len
    by simp
  moreover have "np_get_6D_binned get6D_three () [True, True, True] = Inr ?out"
  proof -
    have same: "get6D_three () [True, True, True] = get6D_three () [True, True, False]"
      by (simp add: get6D_three_def fun_eq_iff)
    have "\<forall>M'. get6D_three () M' = get6D_three () [True, True, False] \<longrightarrow>
        np_get_6D_binned get6D_three () M' = Inr ?out"
      by (rule masked_pairs_in_bin_zero [OF binned_three_ok, of 1 1,
            THEN conjunct2, THEN conjunct2]) (simp_all add: len)
    then show ?thesis using same by blast
  qed
  ultimately show ?thesis by (simp only: nbins_of.simps, simp)
qed

subsection \<open>Distances below the lower edge\<close>

text \<open>
  C10: a pair that is not masked (not a self-pair, distance not above 20) and whose raw
  distance is strictly below the lower edge 2 gets bin index 0 in the dist channel: the
  very vector a masked pair gets there.
\<close>

theorem below_range_distance_in_bin_zero:
  assumes "np_get_6D_binned get6D P M = Inr feats"
    and "i < length (get6D P M Dist)" and "j < length (get6D P M Dist)"
    and "i \<noteq> j" and "get6D P M Dist ! i ! j < 2"
  shows "feats Dist ! i ! j = 1 # replicate 36 0"
proof -
  have nm: "\<not> (20 < get6D P M Dist ! i ! j \<or> i = j)"
    using assms(4,5) by simp
  have "digitize (get6D P M Dist ! i ! j) (linspace 2 20 37) = 0"
    using assms(5) by (intro digitize_linspace_below) simp_all
  then have "x_true 2 20 37 False (get6D P M Dist ! i ! j) = 0"
    by (simp add: x_true_def)
  moreover have "feats Dist ! i ! j =
      eye_row 37 (x_true 2 20 37 False (get6D P M Dist ! i ! j))"
    using binned_entry [OF assms(1-3), of Dist] nm by simp
  ultimately have "feats Dist ! i ! j = eye_row 37 0" by simp
  then show ?thesis by (simp add: eye_row_zero)
qed

theorem below_range_distance_in_bin_zero_witness:
  "(0::nat) \<noteq> 1 \<and> get6D_three () [True, True, False] Dist ! 0 ! 1 < 2
   \<and> projr (np_get_6D_binned get6D_three () [True, True, False]) Dist ! 0 ! 1 =
     1 # replicate 36 0"
  using below_range_distance_in_bin_zero [OF binned_three_ok, of 0 1]
  by (simp add: get6D_three_def ref_three_def)

section \<open>Properties of the relaxer\<close>











lemma shape_sub:
  assumes "map length x = map length y"
  shows "map length (sub x y) = map length x"
  using assms unfolding sub_def
proof (induction x arbitrary: y)
  case Nil
  then show ?case by simp
next
  case (Cons a x)
  then obtain b y' where y: "y = b # y'" by (cases y) auto
  with Cons show ?case by simp
qed










lemma fold_update_length:
  "length (fold (\<lambda>(p, r) y. y[p := r]) prs x) = length x"
  by (induction prs arbitrary: x) auto

lemma fold_update_other:
  assumes "q \<notin> fst ` set prs"
  shows "fold (\<lambda>(p, r) y. y[p := r]) prs x ! q = x ! q"
  using assms by (induction prs arbitrary: x) auto



lemma at_set_length: "length (at_set x pos rows) = length x"
  unfolding at_set_def by (rule fold_update_length)













section \<open>Properties of the loss\<close>

lemma tree_leaves_sum:
  "sum_list (tree_leaves d) = (\<Sum>(t, ls)\<leftarrow>d. \<Sum>(c, l)\<leftarrow>ls. l)"
  by (induction d) (auto simp: tree_leaves_def case_prod_unfold)

lemma weighted_sum:
  "sum_list (tree_leaves (map (\<lambda>(t, ls). (t, map (\<lambda>(c, l). (c, f t c l)) ls)) d)) =
     (\<Sum>(t, ls)\<leftarrow>d. \<Sum>(c, l)\<leftarrow>ls. f t c l)"
  unfolding tree_leaves_sum
  by (induction d) (auto simp: comp_def case_prod_unfold)

lemma missing_term_no_match:
  assumes "(t, ls) \<in> set losses" and "map_of weights t = None"
  shows "\<not> tree_match losses weights"
proof
  assume "tree_match losses weights"
  then have "set (map fst losses) = set (map fst weights)"
    by (simp add: tree_match_def same_keys_def)
  moreover have "t \<in> set (map fst losses)"
    using assms(1) by force
  ultimately have "t \<in> fst ` set weights" by simp
  then show False
    using assms(2) by (simp add: map_of_eq_None_iff)
qed

lemma missing_channel_no_match:
  assumes "(t, ls) \<in> set losses" and "map_of weights t = Some ws"
    and "(c, l) \<in> set ls" and "map_of ws c = None"
  shows "\<not> tree_match losses weights"
proof
  assume "tree_match losses weights"
  then have "list_all (\<lambda>(t, ls). case map_of weights t of
                             None \<Rightarrow> False
                           | Some ws \<Rightarrow> same_keys ls ws) losses"
    by (simp add: tree_match_def)
  with assms(1,2) have "same_keys ls ws"
    by (auto simp: list_all_iff)
  then have "set (map fst ls) = set (map fst ws)"
    by (simp add: same_keys_def)
  moreover have "c \<in> set (map fst ls)"
    using assms(3) by force
  ultimately have "c \<in> fst ` set ws" by simp
  then show False
    using assms(4) by (simp add: map_of_eq_None_iff)
qed

lemma get_loss_cases:
  "get_loss prot feats bkg_feats outputs opt =
     (if tree_match (get_losses prot feats bkg_feats outputs opt) (o_weights opt) then
        Inr ((\<Sum>(t, ls)\<leftarrow>get_losses prot feats bkg_feats outputs opt.
                \<Sum>(c, l)\<leftarrow>ls. l * lookup2 (o_weights opt) t c),
             \<lparr>a_outputs = outputs,
              a_losses = get_losses prot feats bkg_feats outputs opt,
              a_model_num = None\<rparr>)
      else Inl ValueError)"
  unfolding get_loss_def tree_map_mul_def Let_def lookup2_def
  by (simp add: weighted_sum)

text \<open>
  C6, as the specification states it, fails: a loss term without an entry in the
  weights does not contribute zero, the call raises. In the fixed-backbone protocol with
  the empty weights of a fresh object, and in the partial protocol with weights for the
  \<^verbatim>\<open>"cce"\<close> term alone, \<^verbatim>\<open>_get_loss\<close> ends in \<^verbatim>\<open>ValueError\<close>.
\<close>

theorem missing_weight_raises:
  "get_loss Fixbb stack_one stack_one stack_one opt_default = Inl ValueError
   \<and> get_loss Partial stack_one stack_one stack_one opt_cce = Inl ValueError"
  by (simp add: get_loss_cases get_losses_def tree_match_def same_keys_def
      opt_default_def opt_cce_def weights_cce_def)

text \<open>
  C6, amended: the weights mapping must hold exactly the loss terms and channels that
  were computed (\<^verbatim>\<open>jax.tree_map\<close> demands trees of one structure). Then the scalar loss
  is the sum over terms and channels of loss times weight. A loss term or a channel with
  no entry in the weights makes the call fail with \<^verbatim>\<open>ValueError\<close>; nothing defaults to
  zero.
\<close>

theorem weighted_total:
  fixes prot feats bkg_feats outputs opt
  defines "L \<equiv> get_losses prot feats bkg_feats outputs opt"
    and "W \<equiv> o_weights opt"
  shows "(tree_match L W \<longrightarrow>
            get_loss prot feats bkg_feats outputs opt =
              Inr ((\<Sum>(t, ls)\<leftarrow>L. \<Sum>(c, l)\<leftarrow>ls. l * lookup2 W t c),
                   \<lparr>a_outputs = outputs, a_losses = L, a_model_num = None\<rparr>))
       \<and> ((\<exists>(t, ls) \<in> set L. map_of W t = None) \<longrightarrow>
            get_loss prot feats bkg_feats outputs opt = Inl ValueError)
       \<and> ((\<exists>(t, ls) \<in> set L. \<exists>ws. map_of W t = Some ws
              \<and> (\<exists>(c, l) \<in> set ls. map_of ws c = None)) \<longrightarrow>
            get_loss prot feats bkg_feats outputs opt = Inl ValueError)"
proof (intro conjI impI)
  assume "tree_match L W"
  then show "get_loss prot feats bkg_feats outputs opt =
      Inr ((\<Sum>(t, ls)\<leftarrow>L. \<Sum>(c, l)\<leftarrow>ls. l * lookup2 W t c),
           \<lparr>a_outputs = outputs, a_losses = L, a_model_num = None\<rparr>)"
    unfolding L_def W_def by (simp add: get_loss_cases)
next
  assume "\<exists>(t, ls) \<in> set L. map_of W t = None"
  then have "\<not> tree_match L W"
    using missing_term_no_match by blast
  then show "get_loss prot feats bkg_feats outputs opt = Inl ValueError"
    unfolding L_def W_def by (simp add: get_loss_cases)
next
  assume "\<exists>(t, ls) \<in> set L. \<exists>ws. map_of W t = Some ws
      \<and> (\<exists>(c, l) \<in> set ls. map_of ws c = None)"
  then have "\<not> tree_match L W"
    using missing_channel_no_match by blast
  then show "get_loss prot feats bkg_feats outputs opt = Inl ValueError"
    unfolding L_def W_def by (simp add: get_loss_cases)
qed

lemma losses_fixbb_one:
  "get_losses Fixbb stack_one stack_one stack_one opt_cce =
     [(''cce'', [(''dist'', 0), (''omega'', 0), (''theta'', 0), (''phi'', 0)])]"
  by (simp add: get_losses_def channels_def stack_one_def cce_channel_def t_map2_def
      sum_last_def mean_all_def mean_def log_softmax_def)

theorem weighted_total_witness:
  "tree_match (get_losses Fixbb stack_one stack_one stack_one opt_cce) (o_weights opt_cce)
   \<and> get_loss Fixbb stack_one stack_one stack_one opt_cce =
       Inr (0, \<lparr>a_outputs = stack_one,
                a_losses = [(''cce'', [(''dist'', 0), (''omega'', 0), (''theta'', 0), (''phi'', 0)])],
                a_model_num = None\<rparr>)"
proof -
  have m: "tree_match (get_losses Fixbb stack_one stack_one stack_one opt_cce) (o_weights opt_cce)"
    unfolding losses_fixbb_one
    by (simp add: tree_match_def same_keys_def opt_cce_def weights_cce_def)
  from weighted_total [of Fixbb stack_one stack_one stack_one opt_cce] m
  have "get_loss Fixbb stack_one stack_one stack_one opt_cce =
      Inr ((\<Sum>(t, ls)\<leftarrow>get_losses Fixbb stack_one stack_one stack_one opt_cce.
              \<Sum>(c, l)\<leftarrow>ls. l * lookup2 (o_weights opt_cce) t c),
           \<lparr>a_outputs = stack_one,
            a_losses = get_losses Fixbb stack_one stack_one stack_one opt_cce,
            a_model_num = None\<rparr>)"
    by blast
  then show ?thesis
    using m unfolding losses_fixbb_one by simp
qed

subsection \<open>The region of the loss in the partial protocol\<close>

lemma at_set_nth:
  assumes "distinct pos" and "length rows = length pos"
    and "\<forall>p \<in> set pos. p < length x" and "n < length pos"
  shows "at_set x pos rows ! (pos ! n) = rows ! n"
  using assms
proof (induction pos arbitrary: rows x n)
  case Nil
  then show ?case by simp
next
  case (Cons p pos)
  then obtain r rows' where rows: "rows = r # rows'" by (cases rows) auto
  show ?case
  proof (cases n)
    case 0
    have "p \<notin> fst ` set (zip pos rows')"
      using Cons.prems(1) by (auto dest: set_zip_leftD)
    then have "fold (\<lambda>(p, r) y. y[p := r]) (zip pos rows') (x[p := r]) ! p = x[p := r] ! p"
      by (rule fold_update_other)
    then show ?thesis
      using Cons.prems(3) 0 rows by (simp add: at_set_def)
  next
    case (Suc m)
    have "at_set (x[p := r]) pos rows' ! (pos ! m) = rows' ! m"
      using Cons.prems rows Suc by (intro Cons.IH) auto
    then show ?thesis
      using rows Suc by (simp add: at_set_def)
  qed
qed

lemma take_idx_nth:
  assumes "a < length pos" and "pos ! a < length xs"
  shows "take_idx xs pos ! a = xs ! (pos ! a)"
proof -
  have "min (pos ! a) (length xs - 1) = pos ! a"
    using assms(2) by linarith
  then show ?thesis
    using assms(1) by (simp add: take_idx_def)
qed

lemma sub_matrix_nth:
  assumes "a < length pos" and "b < length pos"
    and "pos ! a < length x" and "pos ! b < length (x ! (pos ! a))"
  shows "sub_matrix x pos ! a ! b = x ! (pos ! a) ! (pos ! b)"
proof -
  have "sub_matrix x pos ! a = take_idx (x ! (pos ! a)) pos"
    unfolding sub_matrix_def using assms(1,3) by (simp add: take_idx_nth)
  then show ?thesis
    using assms(2,4) by (simp add: take_idx_nth)
qed

lemma get_losses_partial:
  assumes "o_pos opt = Some pos"
  shows "get_losses Partial feats bkg_feats outputs opt =
    [(''bkg'', map (\<lambda>k. (name k,
         bkg_channel (map (map softmax) (outputs k)) (map (map log_softmax) (outputs k))
           (map (map log_softmax) (bkg_feats k)))) channels),
     (''cce'', map (\<lambda>k. (name k,
         cce_channel (feats k) (sub_matrix (map (map log_softmax) (outputs k)) pos))) channels)]"
  using assms by (simp add: get_losses_def Let_def)

lemma views_lengths:
  "length (map softmax (divide_by (scale 2 input) t)) = length input"
  "length (add (sub (map (\<lambda>r. one_hot (argmax r) 20) (map softmax (divide_by (scale 2 input) t)))
                 (map softmax (divide_by (scale 2 input) t)))
            (map softmax (divide_by (scale 2 input) t))) = length input"
  "length (scale c input) = length input"
  by (simp_all add: add_def sub_def scale_def divide_by_def)

text \<open>
  C5, as the specification states it, fails in its second part: the positions that the
  configured index set selects are not designed. One residue, reference type 3, index
  set \<open>[0]\<close>: whether the logits favour type 7 or are all zero, the pseudo-sequence row
  at the selected position is the one-hot of the reference type 3.
\<close>

theorem selected_position_is_fixed:
  "map_sum id (\<lambda>s. v_pseudo s ! 0) (get_seq Partial [3] params_seven opt_partial) =
     Inr (one_hot 3 20)
   \<and> map_sum id (\<lambda>s. v_pseudo s ! 0) (get_seq Partial [3] params_zero opt_partial) =
     Inr (one_hot 3 20)"
  by (simp add: get_seq_def params_seven_def params_zero_def opt_partial_def opt_default_def
      Let_def at_set_def add_def sub_def scale_def divide_by_def)

text \<open>
  C5, amended: in the partial protocol with a configured position index set, the
  target-matching term is computed over the sub-matrix of the predicted log-distributions
  whose rows and columns the index set selects, and the background term over the full
  predicted matrix; the selected positions are the fixed ones: in every view of the
  sequence their rows are overwritten with the one-hot of the reference amino acid,
  whatever the logits are.
\<close>

theorem partial_loss_region:
  assumes "o_pos opt = Some pos"
    and "get_loss Partial feats bkg_feats outputs opt = Inr (l, a)"
    and "get_seq Partial aatype params opt = Inr s"
    and "map_of params ''seq'' = Some input"
    and "distinct pos" and "length aatype = length pos"
    and "\<forall>p \<in> set pos. p < length input"
  shows "map_of (a_losses a) ''cce'' =
      Some (map (\<lambda>k. (name k,
        cce_channel (feats k) (sub_matrix (map (map log_softmax) (outputs k)) pos))) channels)
    \<and> (\<forall>k. square (length input) (outputs k) \<longrightarrow>
         (\<forall>x < length pos. \<forall>y < length pos.
            sub_matrix (map (map log_softmax) (outputs k)) pos ! x ! y =
              log_softmax (outputs k ! (pos ! x) ! (pos ! y))))
    \<and> map_of (a_losses a) ''bkg'' =
      Some (map (\<lambda>k. (name k,
        bkg_channel (map (map softmax) (outputs k)) (map (map log_softmax) (outputs k))
          (map (map log_softmax) (bkg_feats k)))) channels)
    \<and> (\<forall>n < length pos.
          v_input s ! (pos ! n) = one_hot (aatype ! n) 20
        \<and> v_soft s ! (pos ! n) = one_hot (aatype ! n) 20
        \<and> v_hard s ! (pos ! n) = one_hot (aatype ! n) 20
        \<and> v_pseudo s ! (pos ! n) = one_hot (aatype ! n) 20)"
proof -
  have losses: "a_losses a = get_losses Partial feats bkg_feats outputs opt"
    using assms(2) by (auto simp: get_loss_cases split: if_splits)
  have cce: "map_of (a_losses a) ''cce'' =
      Some (map (\<lambda>k. (name k,
        cce_channel (feats k) (sub_matrix (map (map log_softmax) (outputs k)) pos))) channels)"
    and bkg: "map_of (a_losses a) ''bkg'' =
      Some (map (\<lambda>k. (name k,
        bkg_channel (map (map softmax) (outputs k)) (map (map log_softmax) (outputs k))
          (map (map log_softmax) (bkg_feats k)))) channels)"
    unfolding losses get_losses_partial [OF assms(1)] by simp_all
  have sub: "sub_matrix (map (map log_softmax) (outputs k)) pos ! x ! y =
      log_softmax (outputs k ! (pos ! x) ! (pos ! y))"
    if sq: "square (length input) (outputs k)" and x: "x < length pos" and y: "y < length pos"
    for k x y
  proof -
    have px: "pos ! x < length input" and py: "pos ! y < length input"
      using assms(7) x y by simp_all
    have len: "length (outputs k) = length input" "length (outputs k ! (pos ! x)) = length input"
      using sq px by (simp_all add: square_length square_nth)
    have "sub_matrix (map (map log_softmax) (outputs k)) pos ! x ! y =
        map (map log_softmax) (outputs k) ! (pos ! x) ! (pos ! y)"
      using x y px py len by (intro sub_matrix_nth) simp_all
    then show ?thesis using px py len by simp
  qed
  define rows where "rows = map (\<lambda>a. one_hot a 20) aatype"
  have rl: "length rows = length pos" by (simp add: rows_def assms(6))
  define soft where "soft = map softmax (divide_by (scale 2 input) (o_temp opt))"
  define hard where "hard = add (sub (map (\<lambda>r. one_hot (argmax r) 20) soft) soft) soft"
  define pseudo where
    "pseudo = add (scale (o_hard opt) hard)
       (scale (1 - o_hard opt) (add (scale (o_soft opt) soft) (scale (1 - o_soft opt) input)))"
  have lens: "length soft = length input" "length hard = length input"
    "length pseudo = length input"
    unfolding pseudo_def hard_def soft_def
    by (simp_all add: add_def sub_def scale_def divide_by_def)
  have s: "v_input s = at_set input pos rows" "v_soft s = at_set soft pos rows"
    "v_hard s = at_set hard pos rows" "v_pseudo s = at_set pseudo pos rows"
    using assms(1,3,4,6)
    by (auto simp: get_seq_def Let_def rows_def soft_def hard_def pseudo_def split: if_splits)
  have fixed: "v_input s ! (pos ! n) = one_hot (aatype ! n) 20
        \<and> v_soft s ! (pos ! n) = one_hot (aatype ! n) 20
        \<and> v_hard s ! (pos ! n) = one_hot (aatype ! n) 20
        \<and> v_pseudo s ! (pos ! n) = one_hot (aatype ! n) 20" if n: "n < length pos" for n
  proof -
    have r: "rows ! n = one_hot (aatype ! n) 20"
      using n assms(6) by (simp add: rows_def)
    have "at_set x pos rows ! (pos ! n) = rows ! n" if "length x = length input" for x
      using assms(5) rl assms(7) n that by (intro at_set_nth) simp_all
    then show ?thesis unfolding s using lens r by simp
  qed
  show ?thesis using cce bkg sub fixed by blast
qed

lemma partial_seven_ok:
  "get_seq Partial [3] params_seven opt_partial =
     Inr (projr (get_seq Partial [3] params_seven opt_partial))"
  by (simp add: get_seq_def params_seven_def opt_partial_def opt_default_def Let_def)

lemma partial_loss_ok:
  "get_loss Partial stack_one stack_one stack_one opt_partial =
     Inr (fst (projr (get_loss Partial stack_one stack_one stack_one opt_partial)),
          snd (projr (get_loss Partial stack_one stack_one stack_one opt_partial)))"
  by (simp add: get_loss_cases get_losses_def tree_match_def same_keys_def
      opt_partial_def opt_default_def weights_both_def channels_def insert_commute)

theorem partial_loss_region_witness:
  "v_pseudo (projr (get_seq Partial [3] params_seven opt_partial)) ! 0 = one_hot 3 20
   \<and> v_input (projr (get_seq Partial [3] params_seven opt_partial)) ! 0 = one_hot 3 20
   \<and> map_of (a_losses (snd (projr (get_loss Partial stack_one stack_one stack_one opt_partial))))
       ''cce'' =
     Some (map (\<lambda>k. (name k,
        cce_channel (stack_one k) (sub_matrix (map (map log_softmax) (stack_one k)) [0])))
        channels)"
  using partial_loss_region [OF _ partial_loss_ok partial_seven_ok, of "[0]" "[one_hot 7 20]"]
  by (simp add: opt_partial_def opt_default_def params_seven_def)

section \<open>Properties of \<^verbatim>\<open>run\<close>\<close>

lemma override_fields:
  "s_params (override e sq po oo wo s) = e_update_params e (e_update_seq e (s_params s) sq) po"
  "s_opt (override e sq po oo wo s) =
     (e_set_opt e (s_opt s) oo)\<lparr>o_weights := e_set_weights e (o_weights (e_set_opt e (s_opt s) oo)) wo\<rparr>"
  "s_key (override e sq po oo wo s) = s_key s"
  "s_protocol (override e sq po oo wo s) = s_protocol s"
  "s_model_params (override e sq po oo wo s) = s_model_params s"
  "s_aatype (override e sq po oo wo s) = s_aatype s"
  "s_feats (override e sq po oo wo s) = s_feats s"
  "s_bkg_feats (override e sq po oo wo s) = s_bkg_feats s"
  "s_loss (override e sq po oo wo s) = s_loss s"
  "s_aux (override e sq po oo wo s) = s_aux s"
  "s_grad (override e sq po oo wo s) = s_grad s"
  by (simp_all add: override_def Let_def)

lemma select_models_fst:
  "fst (select_models e s) =
     s\<lparr>s_key := (if o_sample (s_opt s) \<and> o_num (s_opt s) \<noteq> 5
                  then fst (e_split e (s_key s)) else s_key s)\<rparr>"
  by (simp add: select_models_def Let_def case_prod_unfold)

lemma select_models_snd:
  "snd (select_models e s) =
     (if o_sample (s_opt s) \<and> o_num (s_opt s) \<noteq> 5 then
        (if o_num (s_opt s) < 0 \<or> 5 < o_num (s_opt s) then Inl ValueError
         else Inr (e_choice e (snd (e_split e (s_key s))) [0..<5] (nat (o_num (s_opt s))) False))
      else Inr (slice_to [0..<5] (o_num (s_opt s))))"
  by (simp add: select_models_def Let_def case_prod_unfold)

lemma prepared_fields:
  "s_params (prepared e sq po oo wo s) = e_update_params e (e_update_seq e (s_params s) sq) po"
  "s_opt (prepared e sq po oo wo s) =
     (e_set_opt e (s_opt s) oo)\<lparr>o_weights := e_set_weights e (o_weights (e_set_opt e (s_opt s) oo)) wo\<rparr>"
  "s_key (prepared e sq po oo wo s) =
     (if o_sample (s_opt (prepared e sq po oo wo s)) \<and> o_num (s_opt (prepared e sq po oo wo s)) \<noteq> 5
      then fst (e_split e (s_key s)) else s_key s)"
  "s_protocol (prepared e sq po oo wo s) = s_protocol s"
  "s_model_params (prepared e sq po oo wo s) = s_model_params s"
  "s_aatype (prepared e sq po oo wo s) = s_aatype s"
  "s_feats (prepared e sq po oo wo s) = s_feats s"
  "s_bkg_feats (prepared e sq po oo wo s) = s_bkg_feats s"
  "s_loss (prepared e sq po oo wo s) = s_loss s"
  "s_aux (prepared e sq po oo wo s) = s_aux s"
  "s_grad (prepared e sq po oo wo s) = s_grad s"
  by (simp_all add: prepared_def select_models_fst override_fields)

lemma selected_eq:
  "selected e sq po oo wo s =
     (if o_sample (s_opt (prepared e sq po oo wo s)) \<and> o_num (s_opt (prepared e sq po oo wo s)) \<noteq> 5
      then
        (if o_num (s_opt (prepared e sq po oo wo s)) < 0 \<or> 5 < o_num (s_opt (prepared e sq po oo wo s))
         then Inl ValueError
         else Inr (e_choice e (snd (e_split e (s_key s))) [0..<5]
                     (nat (o_num (s_opt (prepared e sq po oo wo s)))) False))
      else Inr (slice_to [0..<5] (o_num (s_opt (prepared e sq po oo wo s)))))"
  by (simp add: selected_def prepared_def select_models_snd select_models_fst override_fields)

text \<open>\<^verbatim>\<open>run\<close>, stage by stage, in terms of the prepared session.\<close>

lemma run_eq:
  "run e sq po oo wo backprop s =
     (let p = prepared e sq po oo wo s
      in case selected e sq po oo wo s of
           Inl err \<Rightarrow> (Some err, p)
         | Inr model_num \<Rightarrow>
            (case run_serial (call_one e p backprop) model_num of
               Inl err \<Rightarrow> (Some err, p)
             | Inr rs \<Rightarrow>
                 if 1 < length model_num then
                   (None, p\<lparr>s_loss := Some (mean (map (\<lambda>r. fst (fst r)) rs)),
                             s_aux := Some ((aux_mean (map (\<lambda>r. snd (fst r)) rs))
                                             \<lparr>a_model_num := Some model_num\<rparr>),
                             s_grad := Some (if backprop then grad_mean (map (\<lambda>r. the (snd r)) rs)
                                             else map (\<lambda>(k, v). (k, zeros_like v)) (s_params p))\<rparr>)
                 else if rs = [] then (Some IndexError, p)
                 else
                   (None, p\<lparr>s_loss := Some (hd (map (\<lambda>r. fst (fst r)) rs)),
                             s_aux := Some ((hd (map (\<lambda>r. snd (fst r)) rs))
                                             \<lparr>a_model_num := Some model_num\<rparr>),
                             s_grad := Some (if backprop then hd (map (\<lambda>r. the (snd r)) rs)
                                             else map (\<lambda>(k, v). (k, zeros_like v)) (s_params p))\<rparr>)))"
  unfolding run_def prepared_def selected_def Let_def
  by (simp add: case_prod_unfold)

lemma run_serial_Inr:
  assumes "run_serial f ns = Inr rs"
  shows "map f ns = map Inr rs"
  using assms
  by (induction ns arbitrary: rs) (auto split: sum.splits)

lemma run_serial_length:
  assumes "run_serial f ns = Inr rs"
  shows "length rs = length ns"
  using run_serial_Inr [OF assms] by (metis length_map)

lemma run_serial_map:
  "run_serial (\<lambda>n. map_sum id h (f n)) ns = map_sum id (map h) (run_serial f ns)"
  by (induction ns) (auto split: sum.splits)

text \<open>
  The plain forward function and the value component of the value-and-gradient
  function agree on every input.
\<close>

lemma value_and_grad_value:
  "map_sum id fst (value_and_grad D f params model_params opt) = f params model_params opt"
  by (simp add: value_and_grad_def split: sum.splits)

lemma call_one_forward:
  "call_one e s False n = map_sum id (\<lambda>r. (fst r, None)) (call_one e s True n)"
  by (simp add: call_one_def grad_fn_def value_and_grad_def Let_def split: sum.splits)

lemma run_serial_forward:
  "run_serial (call_one e s False) ns =
     map_sum id (map (\<lambda>r. (fst r, None))) (run_serial (call_one e s True) ns)"
proof -
  have eq: "call_one e s False = (\<lambda>n. map_sum id (\<lambda>r. (fst r, None)) (call_one e s True n))"
    by (rule ext) (rule call_one_forward)
  show ?thesis unfolding eq by (rule run_serial_map)
qed

lemma call_one_Inr:
  assumes "call_one e s backprop n = Inr r"
  shows "n < length (s_model_params s)
    \<and> fn e s (s_params s) (s_model_params s ! n) (s_opt s) = Inr (fst r)
    \<and> (backprop \<longrightarrow> snd r = Some (e_grad e (\<lambda>p. fn e s p (s_model_params s ! n) (s_opt s))
                                   (s_params s)))"
  using assms
  by (auto simp: call_one_def grad_fn_def value_and_grad_def Let_def split: if_splits sum.splits)

subsection \<open>The forward-only run\<close>

lemma zeros_like_shape: "zeros_like x = map (\<lambda>r. replicate (length r) 0) x"
  by (simp add: zeros_like_def map_replicate_const)

lemma run_stays_prepared:
  "(fst (run e sq po oo wo backprop s) \<noteq> None \<longrightarrow>
       snd (run e sq po oo wo backprop s) = prepared e sq po oo wo s)
   \<and> (fst (run e sq po oo wo backprop s) = None \<longrightarrow>
       (\<exists>l a g. snd (run e sq po oo wo backprop s) =
          (prepared e sq po oo wo s)\<lparr>s_loss := Some l, s_aux := Some a, s_grad := Some g\<rparr>))"
  unfolding run_eq Let_def
  by (auto split: sum.splits)

text \<open>
  C7: a run with \<open>backprop = false\<close> fails or succeeds as the run with \<open>backprop = true\<close>
  from the same session does, leaves the same session but for the gradient (the same
  loss, the same auxiliary outputs, the same members), and on success its gradient has
  the keys and the shapes of the parameters and is zero everywhere. The plain forward
  function and the value component of the value-and-gradient function agree on every
  input.
\<close>

theorem forward_only_run:
  "fst (run e sq po oo wo False s) = fst (run e sq po oo wo True s)
   \<and> s_loss (snd (run e sq po oo wo False s)) = s_loss (snd (run e sq po oo wo True s))
   \<and> s_aux (snd (run e sq po oo wo False s)) = s_aux (snd (run e sq po oo wo True s))
   \<and> snd (run e sq po oo wo False s) =
       (snd (run e sq po oo wo True s))\<lparr>s_grad := s_grad (snd (run e sq po oo wo False s))\<rparr>
   \<and> (fst (run e sq po oo wo False s) = None \<longrightarrow>
         s_grad (snd (run e sq po oo wo False s)) =
           Some (map (\<lambda>(k, v). (k, map (\<lambda>r. replicate (length r) 0) v))
                   (s_params (snd (run e sq po oo wo False s)))))
   \<and> (\<forall>params model_params opt.
         map_sum id fst (grad_fn e s params model_params opt) = fn e s params model_params opt)"
proof -
  define p where "p = prepared e sq po oo wo s"
  have fwd: "run_serial (call_one e p False) ns =
      map_sum id (map (\<lambda>r. (fst r, None))) (run_serial (call_one e p True) ns)" for ns
    by (rule run_serial_forward)
  have agree: "map_sum id fst (grad_fn e s params model_params opt) = fn e s params model_params opt"
    for params model_params opt
    unfolding grad_fn_def by (rule value_and_grad_value)
  show ?thesis
  proof (cases "selected e sq po oo wo s")
    case (Inl err)
    then show ?thesis
      using agree by (simp add: run_eq)
  next
    case (Inr model_num)
    show ?thesis
    proof (cases "run_serial (call_one e p True) model_num")
      case (Inl err)
      then show ?thesis
        using Inr fwd [of model_num] agree by (simp add: run_eq p_def [symmetric])
    next
      case rs: (Inr rs)
      then show ?thesis
        using Inr fwd [of model_num] agree
        by (simp add: run_eq p_def [symmetric] comp_def zeros_like_shape)
    qed
  qed
qed

subsection \<open>Runs in the concrete environment\<close>

lemma demo_get_seq:
  "get_seq Fixbb [] params_zero opt = Inr (projr (get_seq Fixbb [] params_zero opt))"
  by (simp add: get_seq_def params_zero_def Let_def)

lemma demo_fn:
  assumes "s_protocol s = Fixbb" and "s_aatype s = []" and "s_feats s = stack_one"
    and "o_weights opt = weights_cce"
  shows "fn env_demo s params_zero model_params opt = Inr (0, aux_zero)"
proof -
  have "get_losses Fixbb stack_one (s_bkg_feats s) (\<lambda>k. [[[0]]]) opt =
      [(''cce'', [(''dist'', 0), (''omega'', 0), (''theta'', 0), (''phi'', 0)])]"
    by (simp add: get_losses_def channels_def stack_one_def cce_channel_def t_map2_def
        sum_last_def mean_all_def mean_def log_softmax_def)
  then have "get_loss Fixbb stack_one (s_bkg_feats s) (\<lambda>k. [[[0]]]) opt = Inr (0, aux_zero)"
    by (simp add: get_loss_cases tree_match_def same_keys_def lookup2_def assms(4)
        weights_cce_def aux_zero_def)
  then show ?thesis
    unfolding fn_def model_fn_def assms(1-3)
    by (subst demo_get_seq) (simp add: env_demo_def)
qed


lemma demo_call_one:
  assumes "s_protocol s = Fixbb" and "s_aatype s = []" and "s_feats s = stack_one"
    and "o_weights (s_opt s) = weights_cce" and "s_params s = params_zero"
    and "n < length (s_model_params s)"
  shows "call_one env_demo s backprop n =
    Inr ((0, aux_zero), if backprop then Some [(''seq'', [replicate 20 1])] else None)"
proof -
  have f: "fn env_demo s params_zero model_params (s_opt s) = Inr (0, aux_zero)" for model_params
    by (rule demo_fn [OF assms(1-4)])
  have g: "e_grad env_demo F params_zero = [(''seq'', [replicate 20 1])]" for F
    by (simp add: env_demo_def params_zero_def map_replicate_const)
  show ?thesis
    using assms(6) by (simp add: call_one_def grad_fn_def value_and_grad_def assms(5) f g)
qed

lemma demo_prepared_fields:
  "s_protocol (prepared env_demo () () () () (session_demo opt)) = Fixbb"
  "s_aatype (prepared env_demo () () () () (session_demo opt)) = []"
  "s_feats (prepared env_demo () () () () (session_demo opt)) = stack_one"
  "s_params (prepared env_demo () () () () (session_demo opt)) = params_zero"
  "s_opt (prepared env_demo () () () () (session_demo opt)) = opt"
  "length (s_model_params (prepared env_demo () () () () (session_demo opt))) = 5"
  "s_key (prepared env_demo () () () () (session_demo opt)) =
     (if o_sample opt \<and> o_num opt \<noteq> 5 then 1 else 0)"
  by (simp_all add: prepared_fields env_demo_def session_demo_def)

lemma demo_members_one:
  "selected env_demo () () () () (session_demo opt_cce) = Inr [0]"
  unfolding selected_eq demo_prepared_fields
  by (simp add: env_demo_def opt_cce_def opt_default_def upt_rec)

lemma demo_members_full:
  "selected env_demo () () () () (session_demo opt_full) = Inr [0, 1, 2, 3, 4]"
  unfolding selected_eq demo_prepared_fields
  by (simp add: opt_full_def opt_cce_def opt_default_def slice_to_def upt_rec)

lemma demo_serial_one:
  "run_serial (call_one env_demo (prepared env_demo () () () () (session_demo opt_cce)) backprop) [0] =
     Inr [((0, aux_zero), if backprop then Some [(''seq'', [replicate 20 1])] else None)]"
  by (simp add: demo_call_one demo_prepared_fields opt_cce_def)

lemma demo_serial_full:
  "run_serial (call_one env_demo (prepared env_demo () () () () (session_demo opt_full)) backprop)
     [0, 1, 2, 3, 4] =
     Inr (replicate 5 ((0, aux_zero), if backprop then Some [(''seq'', [replicate 20 1])] else None))"
  by (simp add: demo_call_one demo_prepared_fields opt_full_def opt_cce_def numeral_eq_Suc)

lemma demo_run_one:
  "run env_demo () () () () backprop (session_demo opt_cce) =
     (None, (prepared env_demo () () () () (session_demo opt_cce))
        \<lparr>s_loss := Some 0,
         s_aux := Some (aux_zero\<lparr>a_model_num := Some [0]\<rparr>),
         s_grad := Some [(''seq'', [replicate 20 (if backprop then 1 else 0)])]\<rparr>)"
  apply (simp only: run_eq Let_def demo_members_one sum.case)
  apply (simp only: demo_serial_one sum.case)
  apply (simp add: demo_prepared_fields params_zero_def zeros_like_shape)
  done

theorem forward_only_run_witness:
  "fst (run env_demo () () () () False (session_demo opt_cce)) = None
   \<and> s_grad (snd (run env_demo () () () () False (session_demo opt_cce))) =
       Some [(''seq'', [replicate 20 0])]
   \<and> s_loss (snd (run env_demo () () () () True (session_demo opt_cce))) = Some 0"
  using forward_only_run [of env_demo "()" "()" "()" "()" "session_demo opt_cce"]
  by (simp add: demo_run_one)

subsection \<open>The random key and the members used\<close>

lemma run_unchanged_fields:
  "s_opt (snd (run e sq po oo wo backprop s)) = s_opt (prepared e sq po oo wo s)"
  "s_params (snd (run e sq po oo wo backprop s)) = s_params (prepared e sq po oo wo s)"
  "s_key (snd (run e sq po oo wo backprop s)) = s_key (prepared e sq po oo wo s)"
  "s_protocol (snd (run e sq po oo wo backprop s)) = s_protocol (prepared e sq po oo wo s)"
  "s_model_params (snd (run e sq po oo wo backprop s)) = s_model_params (prepared e sq po oo wo s)"
  "s_aatype (snd (run e sq po oo wo backprop s)) = s_aatype (prepared e sq po oo wo s)"
  "s_feats (snd (run e sq po oo wo backprop s)) = s_feats (prepared e sq po oo wo s)"
  "s_bkg_feats (snd (run e sq po oo wo backprop s)) = s_bkg_feats (prepared e sq po oo wo s)"
  using run_stays_prepared [of e sq po oo wo backprop s]
  by (cases "fst (run e sq po oo wo backprop s) = None"; auto)+

lemma run_members:
  assumes "fst (run e sq po oo wo backprop s) = None"
  shows "\<exists>a model_num. s_aux (snd (run e sq po oo wo backprop s)) = Some a
    \<and> a_model_num a = Some model_num
    \<and> selected e sq po oo wo s = Inr model_num"
  using assms unfolding run_eq Let_def
  by (auto split: sum.splits if_splits)

lemma slice_to_prefix:
  assumes "0 \<le> m" and "m \<le> 5"
  shows "slice_to [0..<5] m = [0..<nat m]"
proof -
  have "nat m \<le> 5" using assms by simp
  then have "take (nat m) [0..<5] = [0..<nat m]"
    by (simp add: take_upt)
  then show ?thesis using assms(1) by (simp add: slice_to_def)
qed


lemma demo_run_full:
  "fst (run env_demo () () () () backprop (session_demo opt_full)) = None"
  apply (simp only: run_eq Let_def demo_members_full sum.case)
  apply (simp only: demo_serial_full sum.case)
  apply simp
  done

text \<open>
  C8, as the specification states it, fails in its first part: with sampling enabled and
  \<open>model.num = 5\<close> a successful run leaves the random key as it was, although splitting
  it would have changed it.
\<close>

theorem full_ensemble_keeps_key:
  "o_sample (s_opt (session_demo opt_full))
   \<and> fst (run env_demo () () () () True (session_demo opt_full)) = None
   \<and> s_key (snd (run env_demo () () () () True (session_demo opt_full))) =
       s_key (session_demo opt_full)
   \<and> fst (e_split env_demo (s_key (session_demo opt_full))) \<noteq> s_key (session_demo opt_full)"
  by (simp add: demo_run_full run_unchanged_fields demo_prepared_fields)
    (simp add: session_demo_def env_demo_def opt_full_def opt_cce_def opt_default_def)

text \<open>
  C8, amended: a run splits the session's random key exactly once when sampling is
  enabled and \<open>model.num\<close> is not 5, and does not touch it otherwise (in particular not
  when sampling is enabled and \<open>model.num = 5\<close>). When \<open>model.num = 5\<close> or sampling is
  disabled the members used are \<^verbatim>\<open>ns[:num]\<close>, which is \<open>[0..num)\<close> for \<open>0 \<le> num \<le> 5\<close>;
  otherwise they are what \<^verbatim>\<open>jax.random.choice\<close> draws from the five members with the
  split-off key and \<^verbatim>\<open>replace=False\<close>, for a \<open>num\<close> from 0 to 4.
\<close>

theorem run_key_and_members:
  fixes e sq po oo wo backprop s
  defines "R \<equiv> run e sq po oo wo backprop s"
  defines "m \<equiv> o_num (s_opt (snd R))"
  defines "sampled \<equiv> o_sample (s_opt (snd R)) \<and> m \<noteq> 5"
  shows "s_key (snd R) = (if sampled then fst (e_split e (s_key s)) else s_key s)
    \<and> (fst R = None \<longrightarrow>
          map_option a_model_num (s_aux (snd R)) =
            Some (Some (if sampled
                        then e_choice e (snd (e_split e (s_key s))) [0..<5] (nat m) False
                        else slice_to [0..<5] m)))
    \<and> (fst R = None \<and> sampled \<longrightarrow> 0 \<le> m \<and> m < 5)
    \<and> (0 \<le> m \<and> m \<le> 5 \<longrightarrow> slice_to [0..<5] m = [0..<nat m])"
proof -
  have opt: "s_opt (snd R) = s_opt (prepared e sq po oo wo s)"
    unfolding R_def by (rule run_unchanged_fields)
  have key: "s_key (snd R) = (if sampled then fst (e_split e (s_key s)) else s_key s)"
    unfolding sampled_def m_def opt
    unfolding R_def run_unchanged_fields by (rule prepared_fields)
  have sel: "selected e sq po oo wo s =
      (if sampled then
         (if m < 0 \<or> 5 < m then Inl ValueError
          else Inr (e_choice e (snd (e_split e (s_key s))) [0..<5] (nat m) False))
       else Inr (slice_to [0..<5] m))"
    unfolding sampled_def m_def opt by (rule selected_eq)
  have members: "map_option a_model_num (s_aux (snd R)) =
        Some (Some (if sampled
                    then e_choice e (snd (e_split e (s_key s))) [0..<5] (nat m) False
                    else slice_to [0..<5] m))
      \<and> (sampled \<longrightarrow> 0 \<le> m \<and> m < 5)" if "fst R = None"
  proof -
    from run_members [OF that [unfolded R_def]] obtain a model_num where
      a: "s_aux (snd R) = Some a" "a_model_num a = Some model_num"
      and s: "selected e sq po oo wo s = Inr model_num"
      unfolding R_def by blast
    from s sel have "model_num = (if sampled
                    then e_choice e (snd (e_split e (s_key s))) [0..<5] (nat m) False
                    else slice_to [0..<5] m)"
      and "sampled \<longrightarrow> 0 \<le> m \<and> m \<le> 5"
      by (auto split: if_splits)
    moreover have "sampled \<longrightarrow> m \<noteq> 5" by (simp add: sampled_def)
    ultimately show ?thesis using a by auto
  qed
  show ?thesis
    using key members slice_to_prefix by blast
qed

theorem run_key_and_members_witness:
  "fst (run env_demo () () () () True (session_demo opt_cce)) = None
   \<and> s_key (session_demo opt_cce) = 0
   \<and> s_key (snd (run env_demo () () () () True (session_demo opt_cce))) = 1
   \<and> map_option a_model_num (s_aux (snd (run env_demo () () () () True (session_demo opt_cce)))) =
       Some (Some [0])"
  using run_key_and_members [of env_demo "()" "()" "()" "()" True "session_demo opt_cce"]
  by (simp add: demo_run_one demo_prepared_fields)
    (simp add: session_demo_def env_demo_def opt_cce_def opt_default_def upt_rec)

subsection \<open>What a run writes\<close>




subsection \<open>Averaging over the members\<close>

lemma mean_map: "mean (map g xs) = (\<Sum>x\<leftarrow>xs. g x) / real (length xs)"
  by (simp add: mean_def)

lemma stack_mean_with_nth:
  assumes "i < length (hd vs)"
  shows "stack_mean_with f vs ! i = f (map (\<lambda>v. v ! i) vs)"
  using assms by (simp add: stack_mean_with_def)

lemma stack_mean2_nth:
  assumes "ms \<noteq> []" and "i < length (hd ms)" and "j < length (hd ms ! i)"
  shows "stack_mean2 ms ! i ! j = mean (map (\<lambda>m. m ! i ! j) ms)"
proof -
  have "stack_mean2 ms ! i = stack_mean1 (map (\<lambda>m. m ! i) ms)"
    unfolding stack_mean2_def using assms(2) by (rule stack_mean_with_nth)
  moreover have "hd (map (\<lambda>m. m ! i) ms) = hd ms ! i"
    using assms(1) by (simp add: hd_map)
  ultimately show ?thesis
    unfolding stack_mean1_def using assms(3)
    by (simp add: stack_mean_with_nth comp_def)
qed

lemma stack_mean3_nth:
  assumes "ts \<noteq> []" and "i < length (hd ts)" and "j < length (hd ts ! i)"
    and "b < length (hd ts ! i ! j)"
  shows "stack_mean3 ts ! i ! j ! b = mean (map (\<lambda>t. t ! i ! j ! b) ts)"
proof -
  have "stack_mean3 ts ! i = stack_mean2 (map (\<lambda>t. t ! i) ts)"
    unfolding stack_mean3_def using assms(2) by (rule stack_mean_with_nth)
  moreover have "hd (map (\<lambda>t. t ! i) ts) = hd ts ! i"
    using assms(1) by (simp add: hd_map)
  ultimately show ?thesis
    using assms(1,3,4) by (simp add: stack_mean2_nth comp_def)
qed

lemma aux_mean_losses:
  assumes "(t, ls) \<in> set (a_losses (aux_mean as))" and "(c, v) \<in> set ls"
  shows "v = mean (map (\<lambda>a. lookup2 (a_losses a) t c) as)"
  using assms by (auto simp: aux_mean_def)

lemma grad_mean_entry:
  assumes "(k, G) \<in> set (grad_mean gs)"
  shows "G = stack_mean2 (map (\<lambda>g. the (map_of g k)) gs)"
  using assms by (auto simp: grad_mean_def)

lemma single_cached:
  "single e (s\<lparr>s_loss := l, s_aux := a, s_grad := g\<rparr>) = single e s"
  "single_grad e (s\<lparr>s_loss := l, s_aux := a, s_grad := g\<rparr>) = single_grad e s"
  by (simp_all add: single_def single_grad_def fn_def fun_eq_iff)

lemma run_serial_results:
  assumes "run_serial (call_one e p backprop) model_num = Inr rs"
  shows "map (\<lambda>r. fst (fst r)) rs = map (single_loss e p) model_num
    \<and> map (\<lambda>r. snd (fst r)) rs = map (single_aux e p) model_num
    \<and> (backprop \<longrightarrow> map (\<lambda>r. the (snd r)) rs = map (single_grad e p) model_num)
    \<and> (\<forall>n \<in> set model_num. single e p n = Inr (single_loss e p n, single_aux e p n))"
  using assms
proof (induction model_num arbitrary: rs)
  case Nil
  then show ?case by simp
next
  case (Cons n ns)
  from Cons.prems obtain r rs' where r: "call_one e p backprop n = Inr r"
    and rs': "run_serial (call_one e p backprop) ns = Inr rs'" and rs: "rs = r # rs'"
    by (auto split: sum.splits)
  from call_one_Inr [OF r] have "single e p n = Inr (fst r)"
    and "backprop \<longrightarrow> snd r = Some (single_grad e p n)"
    by (simp_all add: single_def single_grad_def)
  then have "fst (fst r) = single_loss e p n" "snd (fst r) = single_aux e p n"
    "single e p n = Inr (single_loss e p n, single_aux e p n)"
    "backprop \<longrightarrow> the (snd r) = single_grad e p n"
    by (simp_all add: single_loss_def single_aux_def)
  with Cons.IH [OF rs'] rs show ?case by simp
qed

lemma run_success:
  assumes "run e sq po oo wo backprop s = (None, s')"
  shows "\<exists>model_num. selected e sq po oo wo s = Inr model_num \<and> model_num \<noteq> []
    \<and> (\<forall>n \<in> set model_num. single e s' n = Inr (single_loss e s' n, single_aux e s' n))
    \<and> s_loss s' = Some (if 1 < length model_num then mean (map (single_loss e s') model_num)
                         else single_loss e s' (hd model_num))
    \<and> s_aux s' = Some ((if 1 < length model_num then aux_mean (map (single_aux e s') model_num)
                         else single_aux e s' (hd model_num))\<lparr>a_model_num := Some model_num\<rparr>)
    \<and> (backprop \<longrightarrow>
         s_grad s' = Some (if 1 < length model_num then grad_mean (map (single_grad e s') model_num)
                           else single_grad e s' (hd model_num)))"
proof -
  define p where "p = prepared e sq po oo wo s"
  from assms obtain model_num rs where sel: "selected e sq po oo wo s = Inr model_num"
    and ser: "run_serial (call_one e p backprop) model_num = Inr rs"
    unfolding run_eq Let_def p_def by (auto split: sum.splits if_splits)
  have len: "length rs = length model_num"
    by (rule run_serial_length [OF ser])
  note res = run_serial_results [OF ser]
  from assms sel ser have s': "s' = p
      \<lparr>s_loss := Some (if 1 < length model_num then mean (map (\<lambda>r. fst (fst r)) rs)
                       else hd (map (\<lambda>r. fst (fst r)) rs)),
       s_aux := Some ((if 1 < length model_num then aux_mean (map (\<lambda>r. snd (fst r)) rs)
                       else hd (map (\<lambda>r. snd (fst r)) rs))\<lparr>a_model_num := Some model_num\<rparr>),
       s_grad := Some (if backprop
                       then (if 1 < length model_num then grad_mean (map (\<lambda>r. the (snd r)) rs)
                             else hd (map (\<lambda>r. the (snd r)) rs))
                       else map (\<lambda>(k, v). (k, zeros_like v)) (s_params p))\<rparr>"
    and ne: "rs \<noteq> []"
    unfolding run_eq Let_def p_def [symmetric] using len
    by (auto split: if_splits)
  from ne len have mne: "model_num \<noteq> []" by auto
  have same: "single e s' = single e p" "single_grad e s' = single_grad e p"
    unfolding s' by (rule single_cached)+
  then have same': "single_loss e s' = single_loss e p" "single_aux e s' = single_aux e p"
    by (simp_all add: single_loss_def single_aux_def fun_eq_iff)
  have hd_eq: "hd (map f model_num) = f (hd model_num)" for f :: "nat \<Rightarrow> 'z"
    using mne by (simp add: hd_map)
  have L: "s_loss s' = Some (if 1 < length model_num then mean (map (single_loss e p) model_num)
                         else single_loss e p (hd model_num))"
    using res by (simp add: s' hd_eq)
  have A: "s_aux s' = Some ((if 1 < length model_num
                         then aux_mean (map (single_aux e p) model_num)
                         else single_aux e p (hd model_num))\<lparr>a_model_num := Some model_num\<rparr>)"
    using res by (simp add: s' hd_eq)
  have G: "s_grad s' = Some (if 1 < length model_num
                           then grad_mean (map (single_grad e p) model_num)
                           else single_grad e p (hd model_num))" if backprop
    using res that by (simp add: s' hd_eq)
  show ?thesis
    unfolding same same'
    using sel mne res L A G by (intro exI [of _ model_num]) simp
qed

lemma aux_mean_outputs:
  assumes "ns \<noteq> []"
    and "i < length (a_outputs (f (hd ns)) k)"
    and "j < length (a_outputs (f (hd ns)) k ! i)"
    and "b < length (a_outputs (f (hd ns)) k ! i ! j)"
  shows "a_outputs (aux_mean (map f ns)) k ! i ! j ! b =
    (\<Sum>n\<leftarrow>ns. a_outputs (f n) k ! i ! j ! b) / real (length ns)"
proof -
  let ?ts = "map (\<lambda>n. a_outputs (f n) k) ns"
  have hd: "hd ?ts = a_outputs (f (hd ns)) k"
    using assms(1) by (simp add: hd_map)
  have "?ts \<noteq> []" using assms(1) by simp
  then have "stack_mean3 ?ts ! i ! j ! b = mean (map (\<lambda>t. t ! i ! j ! b) ?ts)"
    using assms(2-4) unfolding hd [symmetric] by (rule stack_mean3_nth)
  then show ?thesis
    by (simp add: aux_mean_def comp_def mean_map)
qed

lemma aux_mean_leaf:
  assumes "(t, ls) \<in> set (a_losses (aux_mean (map f ns)))" and "(c, v) \<in> set ls"
  shows "v = (\<Sum>n\<leftarrow>ns. lookup2 (a_losses (f n)) t c) / real (length ns)"
  using aux_mean_losses [OF assms] by (simp add: comp_def mean_map)

lemma aux_mean_terms:
  assumes "ns \<noteq> []"
  shows "map fst (a_losses (aux_mean (map f ns))) = map fst (a_losses (f (hd ns)))"
  using assms by (simp add: aux_mean_def hd_map comp_def case_prod_unfold)

lemma grad_mean_keys:
  assumes "ns \<noteq> []"
  shows "map fst (grad_mean (map f ns)) = map fst (f (hd ns))"
  using assms by (simp add: grad_mean_def hd_map comp_def case_prod_unfold)

lemma grad_mean_nth:
  assumes "ns \<noteq> []" and "(k, G) \<in> set (grad_mean (map f ns))"
    and "i < length (the (map_of (f (hd ns)) k))"
    and "j < length (the (map_of (f (hd ns)) k) ! i)"
  shows "G ! i ! j = (\<Sum>n\<leftarrow>ns. the (map_of (f n) k) ! i ! j) / real (length ns)"
proof -
  let ?ms = "map (\<lambda>n. the (map_of (f n) k)) ns"
  have G: "G = stack_mean2 ?ms"
    using grad_mean_entry [OF assms(2)] by (simp add: comp_def)
  have hd: "hd ?ms = the (map_of (f (hd ns)) k)"
    using assms(1) by (simp add: hd_map)
  have "?ms \<noteq> []" using assms(1) by simp
  then have "stack_mean2 ?ms ! i ! j = mean (map (\<lambda>m. m ! i ! j) ?ms)"
    using assms(3,4) unfolding hd [symmetric] by (rule stack_mean2_nth)
  then show ?thesis
    unfolding G by (simp add: comp_def mean_map)
qed

lemma stack_mean_with_length: "length (stack_mean_with f vs) = length (hd vs)"
  by (simp add: stack_mean_with_def)

lemma stack_mean2_shape:
  assumes "ms \<noteq> []"
  shows "length (stack_mean2 ms) = length (hd ms)"
    and "i < length (hd ms) \<Longrightarrow> length (stack_mean2 ms ! i) = length (hd ms ! i)"
proof -
  show "length (stack_mean2 ms) = length (hd ms)"
    by (simp add: stack_mean2_def stack_mean_with_length)
  assume i: "i < length (hd ms)"
  have "stack_mean2 ms ! i = stack_mean1 (map (\<lambda>m. m ! i) ms)"
    unfolding stack_mean2_def using i by (rule stack_mean_with_nth)
  then show "length (stack_mean2 ms ! i) = length (hd ms ! i)"
    using assms by (simp add: stack_mean1_def stack_mean_with_length hd_map)
qed

lemma stack_mean3_shape:
  assumes "ts \<noteq> []"
  shows "length (stack_mean3 ts) = length (hd ts)"
    and "i < length (hd ts) \<Longrightarrow> length (stack_mean3 ts ! i) = length (hd ts ! i)"
    and "i < length (hd ts) \<Longrightarrow> j < length (hd ts ! i)
           \<Longrightarrow> length (stack_mean3 ts ! i ! j) = length (hd ts ! i ! j)"
proof -
  show "length (stack_mean3 ts) = length (hd ts)"
    by (simp add: stack_mean3_def stack_mean_with_length)
  have row: "stack_mean3 ts ! i = stack_mean2 (map (\<lambda>t. t ! i) ts)" if "i < length (hd ts)"
    unfolding stack_mean3_def using that by (rule stack_mean_with_nth)
  have hd: "hd (map (\<lambda>t. t ! i) ts) = hd ts ! i"
    using assms by (simp add: hd_map)
  have ne: "map (\<lambda>t. t ! i) ts \<noteq> []" using assms by simp
  show "length (stack_mean3 ts ! i) = length (hd ts ! i)" if "i < length (hd ts)"
    using row [OF that] stack_mean2_shape(1) [OF ne] hd by simp
  show "length (stack_mean3 ts ! i ! j) = length (hd ts ! i ! j)"
    if "i < length (hd ts)" "j < length (hd ts ! i)"
    using row [OF that(1)] stack_mean2_shape(2) [OF ne, of j] hd that(2) by simp
qed

lemma aux_mean_outputs_shape:
  assumes "ns \<noteq> []"
  shows "length (a_outputs (aux_mean (map f ns)) k) = length (a_outputs (f (hd ns)) k)"
    and "i < length (a_outputs (f (hd ns)) k)
           \<Longrightarrow> length (a_outputs (aux_mean (map f ns)) k ! i) = length (a_outputs (f (hd ns)) k ! i)"
    and "i < length (a_outputs (f (hd ns)) k) \<Longrightarrow> j < length (a_outputs (f (hd ns)) k ! i)
           \<Longrightarrow> length (a_outputs (aux_mean (map f ns)) k ! i ! j) =
               length (a_outputs (f (hd ns)) k ! i ! j)"
proof -
  let ?ts = "map (\<lambda>n. a_outputs (f n) k) ns"
  have hd: "hd ?ts = a_outputs (f (hd ns)) k"
    using assms by (simp add: hd_map)
  have ne: "?ts \<noteq> []" using assms by simp
  have out: "a_outputs (aux_mean (map f ns)) k = stack_mean3 ?ts"
    by (simp add: aux_mean_def comp_def)
  show "length (a_outputs (aux_mean (map f ns)) k) = length (a_outputs (f (hd ns)) k)"
    unfolding out using stack_mean3_shape(1) [OF ne] hd by simp
  show "length (a_outputs (aux_mean (map f ns)) k ! i) = length (a_outputs (f (hd ns)) k ! i)"
    if "i < length (a_outputs (f (hd ns)) k)"
    unfolding out using stack_mean3_shape(2) [OF ne, of i] hd that by simp
  show "length (a_outputs (aux_mean (map f ns)) k ! i ! j) =
      length (a_outputs (f (hd ns)) k ! i ! j)"
    if "i < length (a_outputs (f (hd ns)) k)" "j < length (a_outputs (f (hd ns)) k ! i)"
    unfolding out using stack_mean3_shape(3) [OF ne, of i j] hd that by simp
qed

lemma aux_mean_losses_eq:
  assumes "ns \<noteq> []"
  shows "a_losses (aux_mean (map f ns)) =
    map (\<lambda>(t, ls).
      (t, map (\<lambda>(c, l). (c, (\<Sum>n\<leftarrow>ns. lookup2 (a_losses (f n)) t c) / real (length ns))) ls))
      (a_losses (f (hd ns)))"
  using assms by (simp add: aux_mean_def hd_map comp_def mean_map)

lemma grad_mean_shape:
  assumes "ns \<noteq> []" and "(k, G) \<in> set (grad_mean (map f ns))"
  shows "length G = length (the (map_of (f (hd ns)) k))"
    and "i < length (the (map_of (f (hd ns)) k))
           \<Longrightarrow> length (G ! i) = length (the (map_of (f (hd ns)) k) ! i)"
proof -
  let ?ms = "map (\<lambda>n. the (map_of (f n) k)) ns"
  have G: "G = stack_mean2 ?ms"
    using grad_mean_entry [OF assms(2)] by (simp add: comp_def)
  have hd: "hd ?ms = the (map_of (f (hd ns)) k)"
    using assms(1) by (simp add: hd_map)
  have ne: "?ms \<noteq> []" using assms(1) by simp
  show "length G = length (the (map_of (f (hd ns)) k))"
    unfolding G using stack_mean2_shape(1) [OF ne] hd by simp
  show "length (G ! i) = length (the (map_of (f (hd ns)) k) ! i)"
    if "i < length (the (map_of (f (hd ns)) k))"
    unfolding G using stack_mean2_shape(2) [OF ne, of i] hd that by simp
qed

text \<open>
  C4: after a successful run on the recorded members \<open>model_num\<close> (a fixed sampled index
  set of size \<open>k\<close>), for \<open>k > 1\<close> the loss is the arithmetic mean of the \<open>k\<close> losses that
  the single-instance calls compute; the auxiliary outputs have the tree of the first
  instance's, every predicted stack with its shape and every per-term per-channel loss
  in its place, and the gradient has the keys and the shapes of the first instance's;
  every entry of every one of these leaves is the arithmetic mean of that entry over the
  \<open>k\<close> instances. For \<open>k = 1\<close> the loss, the auxiliary outputs and the gradient of the one
  instance are used as they are.
\<close>

theorem run_averages:
  assumes "run e sq po oo wo backprop s = (None, s')"
  shows "\<exists>model_num a.
      s_aux s' = Some a \<and> a_model_num a = Some model_num \<and> model_num \<noteq> []
    \<and> (\<forall>n \<in> set model_num. single e s' n = Inr (single_loss e s' n, single_aux e s' n))
    \<and> (1 < length model_num \<longrightarrow>
         s_loss s' = Some ((\<Sum>n\<leftarrow>model_num. single_loss e s' n) / real (length model_num))
       \<and> (\<forall>k. length (a_outputs a k) = length (a_outputs (single_aux e s' (hd model_num)) k)
            \<and> (\<forall>i < length (a_outputs (single_aux e s' (hd model_num)) k).
                  length (a_outputs a k ! i) =
                    length (a_outputs (single_aux e s' (hd model_num)) k ! i)
                \<and> (\<forall>j < length (a_outputs (single_aux e s' (hd model_num)) k ! i).
                      length (a_outputs a k ! i ! j) =
                        length (a_outputs (single_aux e s' (hd model_num)) k ! i ! j)
                    \<and> (\<forall>b < length (a_outputs (single_aux e s' (hd model_num)) k ! i ! j).
                          a_outputs a k ! i ! j ! b =
                            (\<Sum>n\<leftarrow>model_num. a_outputs (single_aux e s' n) k ! i ! j ! b)
                              / real (length model_num)))))
       \<and> a_losses a =
           map (\<lambda>(t, ls).
             (t, map (\<lambda>(c, l).
                   (c, (\<Sum>n\<leftarrow>model_num. lookup2 (a_losses (single_aux e s' n)) t c)
                         / real (length model_num))) ls))
             (a_losses (single_aux e s' (hd model_num)))
       \<and> (backprop \<longrightarrow>
            (\<exists>G. s_grad s' = Some G
               \<and> map fst G = map fst (single_grad e s' (hd model_num))
               \<and> (\<forall>(key, M) \<in> set G.
                     length M = length (the (map_of (single_grad e s' (hd model_num)) key))
                   \<and> (\<forall>i < length (the (map_of (single_grad e s' (hd model_num)) key)).
                         length (M ! i) =
                           length (the (map_of (single_grad e s' (hd model_num)) key) ! i)
                       \<and> (\<forall>j < length (the (map_of (single_grad e s' (hd model_num)) key) ! i).
                             M ! i ! j =
                               (\<Sum>n\<leftarrow>model_num. the (map_of (single_grad e s' n) key) ! i ! j)
                                 / real (length model_num)))))))
    \<and> (length model_num = 1 \<longrightarrow>
         s_loss s' = Some (single_loss e s' (hd model_num))
       \<and> a = (single_aux e s' (hd model_num))\<lparr>a_model_num := Some model_num\<rparr>
       \<and> (backprop \<longrightarrow> s_grad s' = Some (single_grad e s' (hd model_num))))"
proof -
  from run_success [OF assms] obtain model_num where
    ne: "model_num \<noteq> []"
    and ok: "\<forall>n \<in> set model_num. single e s' n = Inr (single_loss e s' n, single_aux e s' n)"
    and L: "s_loss s' = Some (if 1 < length model_num then mean (map (single_loss e s') model_num)
                         else single_loss e s' (hd model_num))"
    and A: "s_aux s' = Some ((if 1 < length model_num
                         then aux_mean (map (single_aux e s') model_num)
                         else single_aux e s' (hd model_num))\<lparr>a_model_num := Some model_num\<rparr>)"
    and G: "backprop \<longrightarrow>
         s_grad s' = Some (if 1 < length model_num
                           then grad_mean (map (single_grad e s') model_num)
                           else single_grad e s' (hd model_num))"
    by blast
  define a where "a = (if 1 < length model_num
                         then aux_mean (map (single_aux e s') model_num)
                         else single_aux e s' (hd model_num))\<lparr>a_model_num := Some model_num\<rparr>"
  have a1: "s_aux s' = Some a" "a_model_num a = Some model_num"
    using A by (simp_all add: a_def)
  have many_loss: "s_loss s' =
      Some ((\<Sum>n\<leftarrow>model_num. single_loss e s' n) / real (length model_num))"
    if "1 < length model_num"
    using L that by (simp add: mean_map)
  have many_out: "length (a_outputs a k) = length (a_outputs (single_aux e s' (hd model_num)) k)
      \<and> (\<forall>i < length (a_outputs (single_aux e s' (hd model_num)) k).
            length (a_outputs a k ! i) =
              length (a_outputs (single_aux e s' (hd model_num)) k ! i)
          \<and> (\<forall>j < length (a_outputs (single_aux e s' (hd model_num)) k ! i).
                length (a_outputs a k ! i ! j) =
                  length (a_outputs (single_aux e s' (hd model_num)) k ! i ! j)
              \<and> (\<forall>b < length (a_outputs (single_aux e s' (hd model_num)) k ! i ! j).
                    a_outputs a k ! i ! j ! b =
                      (\<Sum>n\<leftarrow>model_num. a_outputs (single_aux e s' n) k ! i ! j ! b)
                        / real (length model_num))))"
    if gt: "1 < length model_num" for k
  proof -
    have out: "a_outputs a k = a_outputs (aux_mean (map (single_aux e s') model_num)) k"
      using gt by (simp add: a_def)
    show ?thesis
      unfolding out
      using aux_mean_outputs_shape [where f = "single_aux e s'" and k = k, OF ne]
        aux_mean_outputs [where f = "single_aux e s'" and k = k, OF ne]
      by blast
  qed
  have many_losses: "a_losses a =
      map (\<lambda>(t, ls).
        (t, map (\<lambda>(c, l).
              (c, (\<Sum>n\<leftarrow>model_num. lookup2 (a_losses (single_aux e s' n)) t c)
                    / real (length model_num))) ls))
        (a_losses (single_aux e s' (hd model_num)))"
    if "1 < length model_num"
    using that aux_mean_losses_eq [where f = "single_aux e s'", OF ne] by (simp add: a_def)
  have many_grad: "\<exists>G. s_grad s' = Some G
      \<and> map fst G = map fst (single_grad e s' (hd model_num))
      \<and> (\<forall>(key, M) \<in> set G.
            length M = length (the (map_of (single_grad e s' (hd model_num)) key))
          \<and> (\<forall>i < length (the (map_of (single_grad e s' (hd model_num)) key)).
                length (M ! i) =
                  length (the (map_of (single_grad e s' (hd model_num)) key) ! i)
              \<and> (\<forall>j < length (the (map_of (single_grad e s' (hd model_num)) key) ! i).
                    M ! i ! j =
                      (\<Sum>n\<leftarrow>model_num. the (map_of (single_grad e s' n) key) ! i ! j)
                        / real (length model_num))))"
    if k: "1 < length model_num" and backprop
  proof -
    from G k \<open>backprop\<close>
    have g: "s_grad s' = Some (grad_mean (map (single_grad e s') model_num))"
      by simp
    have "\<forall>(key, M) \<in> set (grad_mean (map (single_grad e s') model_num)).
            length M = length (the (map_of (single_grad e s' (hd model_num)) key))
          \<and> (\<forall>i < length (the (map_of (single_grad e s' (hd model_num)) key)).
                length (M ! i) =
                  length (the (map_of (single_grad e s' (hd model_num)) key) ! i)
              \<and> (\<forall>j < length (the (map_of (single_grad e s' (hd model_num)) key) ! i).
                    M ! i ! j =
                      (\<Sum>n\<leftarrow>model_num. the (map_of (single_grad e s' n) key) ! i ! j)
                        / real (length model_num)))"
      using grad_mean_shape [where f = "single_grad e s'", OF ne]
        grad_mean_nth [where f = "single_grad e s'", OF ne]
      by (auto simp del: One_nat_def)
    then show ?thesis
      using g grad_mean_keys [OF ne, of "single_grad e s'"] by blast
  qed
  have one: "s_loss s' = Some (single_loss e s' (hd model_num))
       \<and> a = (single_aux e s' (hd model_num))\<lparr>a_model_num := Some model_num\<rparr>
       \<and> (backprop \<longrightarrow> s_grad s' = Some (single_grad e s' (hd model_num)))"
    if "length model_num = 1"
    using L G that by (simp add: a_def)
  show ?thesis
    apply (rule exI [of _ model_num])
    apply (rule exI [of _ a])
    apply (intro conjI impI allI)
    using a1 ne ok many_loss many_out many_losses many_grad one
                apply blast+
    done
qed

theorem run_averages_witness:
  "fst (run env_demo () () () () True (session_demo opt_full)) = None
   \<and> map_option a_model_num (s_aux (snd (run env_demo () () () () True (session_demo opt_full)))) =
       Some (Some [0, 1, 2, 3, 4])
   \<and> s_loss (snd (run env_demo () () () () True (session_demo opt_full))) = Some ((0 + 0 + 0 + 0 + 0) / 5)
   \<and> map_option a_losses (s_aux (snd (run env_demo () () () () True (session_demo opt_full)))) =
       Some [(''cce'', [(''dist'', (0 + 0 + 0 + 0 + 0) / 5), (''omega'', (0 + 0 + 0 + 0 + 0) / 5),
                       (''theta'', (0 + 0 + 0 + 0 + 0) / 5), (''phi'', (0 + 0 + 0 + 0 + 0) / 5)])]"
proof -
  define s' where "s' = snd (run env_demo () () () () True (session_demo opt_full))"
  have ok: "fst (run env_demo () () () () True (session_demo opt_full)) = None"
    by (rule demo_run_full)
  then have r: "run env_demo () () () () True (session_demo opt_full) = (None, s')"
    unfolding s'_def by (metis prod.collapse)
  from run_averages [OF r] obtain model_num a where
    a: "s_aux s' = Some a" "a_model_num a = Some model_num"
    and many: "1 < length model_num \<longrightarrow>
      s_loss s' = Some ((\<Sum>n\<leftarrow>model_num. single_loss env_demo s' n) / real (length model_num))
      \<and> a_losses a =
           map (\<lambda>(t, ls).
             (t, map (\<lambda>(c, l).
                   (c, (\<Sum>n\<leftarrow>model_num. lookup2 (a_losses (single_aux env_demo s' n)) t c)
                         / real (length model_num))) ls))
             (a_losses (single_aux env_demo s' (hd model_num)))"
    by blast
  from run_members [OF ok] a have mn: "model_num = [0, 1, 2, 3, 4]"
    unfolding s'_def [symmetric] by (auto simp: demo_members_full)
  have fields: "s_protocol s' = Fixbb" "s_aatype s' = []" "s_feats s' = stack_one"
    "s_params s' = params_zero" "o_weights (s_opt s') = weights_cce"
    unfolding s'_def
    by (simp_all add: run_unchanged_fields demo_prepared_fields opt_full_def opt_cce_def)
  have "single env_demo s' n = Inr (0, aux_zero)" for n
    unfolding single_def fields(4) by (rule demo_fn [OF fields(1-3,5)])
  then have single: "single_loss env_demo s' n = 0" "single_aux env_demo s' n = aux_zero" for n
    by (simp_all add: single_loss_def single_aux_def)
  have "lookup2 (a_losses aux_zero) ''cce'' c = 0"
    if "c \<in> {''dist'', ''omega'', ''theta'', ''phi''}" for c
    using that by (auto simp: lookup2_def aux_zero_def)
  then have leaves: "a_losses a =
      [(''cce'', [(''dist'', (0 + 0 + 0 + 0 + 0) / 5), (''omega'', (0 + 0 + 0 + 0 + 0) / 5),
                 (''theta'', (0 + 0 + 0 + 0 + 0) / 5), (''phi'', (0 + 0 + 0 + 0 + 0) / 5)])]"
    using many mn by (simp add: single) (simp add: aux_zero_def)
  from many mn have "s_loss s' = Some ((0 + 0 + 0 + 0 + 0) / 5)"
    by (simp add: single)
  then show ?thesis
    using ok a mn leaves unfolding s'_def by simp
qed

end
